theory Spec2Isabelle
  imports Main "HOL-Library.Sublist"
begin

section \<open>Strings as the script sees them\<close>

text \<open>
  The script is the second, confirmation-guarded version of the realtime page script
  (the one that starts with the comment "Strict confirmation FSM with turn-index guard").
  Transcript text is a list of characters whose codes are the Unicode code points
  U+0000 to U+00FF, one UTF-16 code unit each. On this range the built-ins the classifier
  relies on are finite tables: \<^verbatim>\<open>toLowerCase\<close> moves A-Z and U+00C0-U+00DE
  (without the multiplication sign U+00D7) up by 32; \<^verbatim>\<open>trim\<close> and the
  whitespace class of regular expressions know U+0009-U+000D, U+0020 and U+00A0; the
  Unicode letter class holds A-Z, a-z, U+00AA, U+00B5, U+00BA and U+00C0-U+00FF without
  U+00D7 and U+00F7; and the word class of a regular expression without the unicode
  flag is A-Z, a-z, 0-9 and the underscore.
  Phrase tables that contain words in other scripts are kept as lists of UTF-16 code
  units, and a text is compared with them through \<open>codeUnits\<close>.
\<close>

definition toLowerChar :: "char \<Rightarrow> char" where
  "toLowerChar c = (let n = (of_char c :: nat) in
     if (65 \<le> n \<and> n \<le> 90) \<or> (192 \<le> n \<and> n \<le> 222 \<and> n \<noteq> 215)
     then char_of (n + 32) else c)"

definition toLowerCase :: "string \<Rightarrow> string" where
  "toLowerCase s = map toLowerChar s"

definition isSpace :: "char \<Rightarrow> bool" where
  "isSpace c = (let n = (of_char c :: nat) in (9 \<le> n \<and> n \<le> 13) \<or> n = 32 \<or> n = 160)"

definition isLetter :: "char \<Rightarrow> bool" where
  "isLetter c = (let n = (of_char c :: nat) in
     (65 \<le> n \<and> n \<le> 90) \<or> (97 \<le> n \<and> n \<le> 122) \<or> n = 170 \<or> n = 181 \<or> n = 186 \<or>
     (192 \<le> n \<and> n \<noteq> 215 \<and> n \<noteq> 247))"

definition isWordChar :: "char \<Rightarrow> bool" where
  "isWordChar c = (let n = (of_char c :: nat) in
     (65 \<le> n \<and> n \<le> 90) \<or> (97 \<le> n \<and> n \<le> 122) \<or> (48 \<le> n \<and> n \<le> 57) \<or> n = 95)"

definition codeUnits :: "string \<Rightarrow> nat list" where
  "codeUnits s = map of_char s"

definition trim :: "string \<Rightarrow> string" where
  "trim s = rev (dropWhile isSpace (rev (dropWhile isSpace s)))"

text \<open>
  \<^verbatim>\<open>s.indexOf(tok)\<close>: the first position at which \<open>tok\<close> starts in \<open>s\<close>, or -1.
  \<^verbatim>\<open>s.lastIndexOf(tok)\<close> is the last such position, and \<^verbatim>\<open>s.slice(a, b)\<close> counts
  a negative argument from the end and clamps both to the string.
\<close>

fun indexOf :: "'a list \<Rightarrow> 'a list \<Rightarrow> int" where
  "indexOf [] tok = (if tok = [] then 0 else -1)"
| "indexOf (c # cs) tok =
     (if prefix tok (c # cs) then 0
      else (let i = indexOf cs tok in if i = -1 then -1 else i + 1))"

definition lastIndexOf :: "'a list \<Rightarrow> 'a list \<Rightarrow> int" where
  "lastIndexOf s tok =
     (let i = indexOf (rev s) (rev tok)
      in if i = -1 then -1 else int (length s) - int (length tok) - i)"

definition slice :: "'a list \<Rightarrow> int \<Rightarrow> int \<Rightarrow> 'a list" where
  "slice s a b =
     (let n = int (length s);
          lo = (if a < 0 then max (n + a) 0 else min a n);
          hi = (if b < 0 then max (n + b) 0 else min b n)
      in take (nat (hi - lo)) (drop (nat lo) s))"

definition includesStr :: "'a list \<Rightarrow> 'a list \<Rightarrow> bool" where
  "includesStr s tok = (indexOf s tok \<noteq> -1)"

text \<open>\<^verbatim>\<open>a || b\<close> on strings: the empty string is the only falsy one.\<close>

definition orElse :: "string \<Rightarrow> string \<Rightarrow> string" where
  "orElse a b = (if a \<noteq> [] then a else b)"


section \<open>Intent classifier\<close>

definition YES_LONG_TOKENS :: "string list" where
  "YES_LONG_TOKENS =
    [''yes'', ''yeah'', ''yep'', ''yup'', ''confirm'', ''please end'', ''go ahead'',
     ''that's fine'', ''that is fine'', ''end now'', ''sure'', ''okay end'', ''ok end'',
     ''please close'', ''end it'', ''yes please'', ''affirmative'', ''indeed'']"

text \<open>
  The last eleven entries of \<^verbatim>\<open>NO_TOKENS\<close> are "no" in Arabic, Russian, German, Tamil,
  Telugu, Hindi, Portuguese, French, Czech, Swedish and Japanese (romanised).
\<close>

definition NO_TOKENS :: "nat list list" where
  "NO_TOKENS = map codeUnits
    [''no'', ''not yet'', ''wait'', ''hold on'', ''continue'', ''don't'', ''do not'', ''nope'',
     ''cancel'', ''not now'', ''stop asking'', ''no thanks'', ''no thank you'', ''nah'', ''never'',
     ''please continue'', ''keep going'', ''no i don't'', ''no i do not'']
    @ ([1604, 1575] # [1085, 1077, 1090] # codeUnits ''nein'' # [2951, 2994, 3021, 2994, 3016]
       # [3122, 3143, 3110, 3137] # [2344, 2361, 2368, 2306] # [110, 227, 111] # codeUnits ''non''
       # codeUnits ''ne'' # codeUnits ''nej'' # codeUnits ''nai'' # [])"

definition SHORT_YES :: "string list" where
  "SHORT_YES = [''s'', ''y'', ''ok'', ''okay'']"

text \<open>The fifth stop phrase is "we're done" written with the typographic apostrophe U+2019.\<close>

definition STOP_TOKENS :: "nat list list" where
  "STOP_TOKENS =
    map codeUnits [''stop'', ''end'', ''finish'', ''we are done'']
    @ [codeUnits ''we'' @ [8217] @ codeUnits ''re done'']
    @ map codeUnits [''that's all'', ''thats all'', ''end the conversation'', ''stop this'',
       ''stop now'', ''bye'', ''goodbye'']"

text \<open>
  \<^verbatim>\<open>normalizeLetters\<close> lower-cases, replaces every maximal run of non-letters by one
  space and trims.
\<close>

function collapseNonLetters :: "string \<Rightarrow> string" where
  "collapseNonLetters [] = []"
| "collapseNonLetters (c # cs) =
     (if isLetter c then c # collapseNonLetters cs
      else CHR '' '' # collapseNonLetters (dropWhile (\<lambda>d. \<not> isLetter d) cs))"
  by pat_completeness auto
termination
  by (relation "measure length") (auto simp: le_imp_less_Suc length_dropWhile_le)

definition normalizeLetters :: "string \<Rightarrow> string" where
  "normalizeLetters s = trim (collapseNonLetters (toLowerCase s))"

text \<open>Deleting every run of whitespace (the second \<^verbatim>\<open>replace\<close> of \<^verbatim>\<open>isAffirmativeTurn\<close>).\<close>

definition removeSpaces :: "string \<Rightarrow> string" where
  "removeSpaces s = filter (\<lambda>c. \<not> isSpace c) s"

text \<open>
  The regular expression built for a long token is: start of input or a word boundary,
  then the token taken literally (its special characters are escaped), then a word
  boundary or the end of input. \<open>wordBoundary pre post\<close> is the word-boundary assertion
  at the position that splits the input into \<open>pre\<close> and \<open>post\<close>; \<open>reTest\<close> tries
  every position, as \<^verbatim>\<open>test\<close> does.
\<close>

definition wordBoundary :: "string \<Rightarrow> string \<Rightarrow> bool" where
  "wordBoundary pre post =
     ((pre \<noteq> [] \<and> isWordChar (last pre)) \<noteq> (post \<noteq> [] \<and> isWordChar (hd post)))"

definition reMatchAt :: "string \<Rightarrow> string \<Rightarrow> nat \<Rightarrow> bool" where
  "reMatchAt tok s i =
     (let pre = take i s; rest = drop i s; post = drop (length tok) rest in
       (pre = [] \<or> wordBoundary pre rest) \<and> prefix tok rest \<and>
       (wordBoundary (pre @ tok) post \<or> post = []))"

definition reTest :: "string \<Rightarrow> string \<Rightarrow> bool" where
  "reTest tok s = list_ex (reMatchAt tok s) [0 ..< Suc (length s)]"

definition isNegativeTurn :: "string \<Rightarrow> bool" where
  "isNegativeTurn text =
     (let lc = toLowerCase text in
      list_ex (\<lambda>tok. indexOf (codeUnits lc) tok \<noteq> -1) NO_TOKENS)"

definition isAffirmativeTurn :: "string \<Rightarrow> bool" where
  "isAffirmativeTurn text =
     (let raw = text; lc = trim (toLowerCase raw) in
      if isNegativeTurn lc then False
      else let lettersOnly = removeSpaces (normalizeLetters lc) in
        if length lettersOnly \<le> 4 \<and> lettersOnly \<in> set SHORT_YES then True
        else list_ex (\<lambda>tok. reTest tok lc) YES_LONG_TOKENS)"

definition isStopIntent :: "string \<Rightarrow> bool" where
  "isStopIntent text =
     (let lc = toLowerCase text in
      list_ex (\<lambda>tok. indexOf (codeUnits lc) tok \<noteq> -1) STOP_TOKENS)"


section \<open>Controller state and what it sends\<close>

text \<open>
  The controller is the closure state of \<^verbatim>\<open>boot\<close>. The two transcript elements are
  their text content, the events channel is reduced to whether it is open, and every
  timer is the instant at which it is due (\<open>None\<close> when not armed). What the script
  sends is appended to \<open>emitted\<close>: a POST or a beacon to the save endpoint, an
  instruction to the remote model, or the \<^verbatim>\<open>convo:state\<close> notification. The status
  line, the two buttons and the media tear-down are display only and are left out.
  \<^verbatim>\<open>Date.now()\<close> is the argument \<open>now\<close> of each handler, in milliseconds.
\<close>

datatype convo = Active | PendingConfirm | Ended

record save_request =
  session_id :: string
  user_text :: string
  ai_text :: string
  autosave :: bool
  reason :: string
  close :: bool
  finalize :: bool
  confirmed :: bool
  conversation_id :: "int option"

datatype effect =
    Post save_request
  | Beacon save_request
  | Instruction string
  | ConvoStateEvent convo

record save_options =
  o_autosave :: bool
  o_reason :: string
  o_finalize :: bool
  o_confirmed :: bool
  o_close :: bool

text \<open>
  The outcome of one \<^verbatim>\<open>fetch\<close> of the save endpoint, with the instant at which it
  settles: the call rejects, or it answers with \<^verbatim>\<open>res.ok\<close> and, when the body is JSON
  with a numeric \<^verbatim>\<open>id\<close>, that id.
\<close>

datatype fetch_result = NetworkError int | Response bool "int option" int

record controller =
  userEl :: string
  aiEl :: string
  dcOpen :: bool
  sessionId :: string
  conversationId :: "int option"
  autosaveTimer :: "int option"
  dirty :: bool
  lastSnapshot :: string
  lastSaveAt :: int
  saving :: bool
  finalized :: bool
  greetingPending :: bool
  greetTimeoutHandle :: "int option"
  greeted :: bool
  convoState :: convo
  confirmationRequested :: bool
  confirmationAskedAt :: int
  confirmationGranted :: bool
  currentUserTurn :: string
  turnIndex :: int
  confirmAskedTurnIndex :: int
  lastUserTurnIndex :: int
  finalizeFallbackTimer :: "int option"
  rejectFinalizeUntilTs :: int
  lastStopIntentTs :: int
  fnArgBuffers :: "string \<rightharpoonup> string"
  forceStopTimers :: "int list"
  emitted :: "effect list"

definition AUTO_SAVE_IDLE_MS :: int where "AUTO_SAVE_IDLE_MS = 8000"
definition MIN_SAVE_INTERVAL_MS :: int where "MIN_SAVE_INTERVAL_MS = 10000"
definition STOP_AFTER_CLOSE_MS :: int where "STOP_AFTER_CLOSE_MS = 1200"
definition CONFIRM_WINDOW_MS :: int where "CONFIRM_WINDOW_MS = 90 * 1000"
definition FINALIZE_FALLBACK_MS :: int where "FINALIZE_FALLBACK_MS = 1800"
definition STOP_INTENT_WINDOW_MS :: int where "STOP_INTENT_WINDOW_MS = 20000"

text \<open>The closure state right after \<^verbatim>\<open>boot\<close> has declared its variables.\<close>

definition boot :: controller where
  "boot = \<lparr> userEl = [], aiEl = [], dcOpen = False, sessionId = [], conversationId = None,
     autosaveTimer = None, dirty = False, lastSnapshot = [], lastSaveAt = 0, saving = False,
     finalized = False, greetingPending = False, greetTimeoutHandle = None, greeted = False,
     convoState = Active, confirmationRequested = False, confirmationAskedAt = 0,
     confirmationGranted = False, currentUserTurn = [], turnIndex = 0,
     confirmAskedTurnIndex = -1, lastUserTurnIndex = -1, finalizeFallbackTimer = None,
     rejectFinalizeUntilTs = 0, lastStopIntentTs = 0, fnArgBuffers = Map.empty,
     forceStopTimers = [], emitted = [] \<rparr>"

definition setConvoState :: "convo \<Rightarrow> controller \<Rightarrow> controller" where
  "setConvoState newState st =
     (if convoState st = newState then st
      else st\<lparr>convoState := newState, emitted := emitted st @ [ConvoStateEvent newState]\<rparr>)"

definition currentSnapshot :: "controller \<Rightarrow> string" where
  "currentSnapshot st = userEl st @ [CHR 10] @ ''----'' @ [CHR 10] @ aiEl st"

definition scheduleAutoSave :: "int option \<Rightarrow> int \<Rightarrow> controller \<Rightarrow> controller" where
  "scheduleAutoSave delayMs now st =
     (let wait = (case delayMs of Some d \<Rightarrow> d | None \<Rightarrow> AUTO_SAVE_IDLE_MS)
      in st\<lparr>autosaveTimer := Some (now + wait)\<rparr>)"

definition markDirty :: "int \<Rightarrow> controller \<Rightarrow> controller" where
  "markDirty now st =
     (if \<not> finalized st then scheduleAutoSave None now (st\<lparr>dirty := True\<rparr>) else st)"

definition closingText :: string where
  "closingText = ''Thank you for your patience and for using our service. Have a great day!''"

definition continueText :: string where
  "continueText = ''The user did not confirm ending. Continue assisting. Do NOT call finalize_conversation again unless the user explicitly confirms in their next turn. Always respond only in English.''"

definition sendClosingMessage :: "controller \<Rightarrow> bool \<times> controller" where
  "sendClosingMessage st =
     (if \<not> dcOpen st then (False, st)
      else (True, st\<lparr>emitted := emitted st @ [Instruction closingText]\<rparr>))"

definition sendContinueInstruction :: "controller \<Rightarrow> controller" where
  "sendContinueInstruction st =
     (if \<not> dcOpen st then st
      else st\<lparr>emitted := emitted st @ [Instruction continueText]\<rparr>)"

definition forceStopSoon :: "int \<Rightarrow> controller \<Rightarrow> controller" where
  "forceStopSoon now st = st\<lparr>forceStopTimers := forceStopTimers st @ [now + STOP_AFTER_CLOSE_MS]\<rparr>"

definition cancelFinalizeFallback :: "controller \<Rightarrow> controller" where
  "cancelFinalizeFallback st = st\<lparr>finalizeFallbackTimer := None\<rparr>"

definition hasFinalizePermission :: "int \<Rightarrow> controller \<Rightarrow> bool" where
  "hasFinalizePermission now st =
     (let classic = (confirmationRequested st \<and> (now - confirmationAskedAt st) \<le> CONFIRM_WINDOW_MS
                     \<and> (lastUserTurnIndex st > confirmAskedTurnIndex st) \<and> confirmationGranted st);
          recentStop = ((now - lastStopIntentTs st) \<le> STOP_INTENT_WINDOW_MS);
          fallback = (recentStop \<and> confirmationGranted st \<and> (now \<ge> rejectFinalizeUntilTs st))
      in classic \<or> fallback)"


section \<open>Saving\<close>

text \<open>
  \<^verbatim>\<open>saveConversation\<close> returns \<^verbatim>\<open>{ok, data}\<close>; its callers read \<open>ok\<close> only. The
  model returns \<open>ok\<close>, the instant at which the call settles, and the state. The
  request is emitted when \<^verbatim>\<open>fetch\<close> is called; the answer is handled in the same
  step.
\<close>

definition aiTextSanitized :: "string \<Rightarrow> string" where
  "aiTextSanitized t = orElse t []"

definition saveConversation ::
  "save_options \<Rightarrow> int \<Rightarrow> fetch_result \<Rightarrow> controller \<Rightarrow> bool \<times> int \<times> controller" where
  "saveConversation options now fr st =
     (let payload = \<lparr> session_id = orElse (sessionId st) [],
            user_text = userEl st,
            ai_text = aiTextSanitized (aiEl st),
            autosave = o_autosave options,
            reason = orElse (o_reason options) (if o_autosave options then ''autosave'' else ''manual''),
            close = o_close options,
            finalize = o_finalize options,
            confirmed = o_confirmed options,
            conversation_id = conversationId st \<rparr>;
          snap = currentSnapshot st;
          isFinalize = o_finalize options
      in if trim snap = [] then (True, now, st)
         else if saving st \<and> \<not> isFinalize then (False, now, st)
         else if \<not> isFinalize \<and> o_autosave options \<and> (now - lastSaveAt st < MIN_SAVE_INTERVAL_MS)
           then (True, now, st)
         else (let st1 = st\<lparr>saving := True, emitted := emitted st @ [Post payload]\<rparr>
               in case fr of
                    NetworkError t \<Rightarrow> (False, t, st1\<lparr>saving := False\<rparr>)
                  | Response ok js_id t \<Rightarrow>
                      (if ok
                       then (True, t,
                             st1\<lparr>conversationId :=
                                    (case js_id of Some i \<Rightarrow> Some i | None \<Rightarrow> conversationId st1),
                                  lastSnapshot := snap, lastSaveAt := t, dirty := False,
                                  saving := False\<rparr>)
                       else (False, t, st1\<lparr>saving := False\<rparr>))))"

definition tryAutoSave :: "string \<Rightarrow> int \<Rightarrow> fetch_result \<Rightarrow> controller \<Rightarrow> controller" where
  "tryAutoSave why now fr st =
     (if \<not> dirty st then st
      else snd (snd (saveConversation
             \<lparr> o_autosave = True, o_reason = orElse why ''autosave'', o_finalize = False,
               o_confirmed = False, o_close = False \<rparr> now fr st)))"

text \<open>
  \<^verbatim>\<open>stop(options)\<close>: the two-phase save unless \<^verbatim>\<open>skipSave\<close>, then the tear-down. The
  second fetch outcome is read only when the forced finalize is sent.
\<close>

definition stop ::
  "bool \<Rightarrow> int \<Rightarrow> fetch_result \<Rightarrow> fetch_result \<Rightarrow> controller \<Rightarrow> controller" where
  "stop skipSave now fr1 fr2 st =
     (let st1 =
        (if \<not> skipSave then
           (case saveConversation
                   \<lparr> o_autosave = True, o_reason = ''manual_stop'', o_finalize = False,
                     o_confirmed = False, o_close = False \<rparr> now fr1 st of
              (baseOk, t1, sa) \<Rightarrow>
                if \<not> finalized sa \<and> baseOk then
                  (case saveConversation
                          \<lparr> o_autosave = True, o_reason = ''manual_stop_finalize'', o_finalize = True,
                            o_confirmed = True, o_close = True \<rparr> t1 fr2 sa of
                     (forcedOk, t2, sb) \<Rightarrow>
                       if forcedOk then setConvoState Ended (sb\<lparr>finalized := True\<rparr>) else sb)
                else sa)
         else st)
      in (cancelFinalizeFallback
            (st1\<lparr>autosaveTimer := None, greetTimeoutHandle := None\<rparr>))
           \<lparr>rejectFinalizeUntilTs := 0, lastStopIntentTs := 0, dcOpen := False\<rparr>)"

text \<open>
  The client-driven finalize that the fallback timer runs. After the save has settled the
  script goes on at that instant.
\<close>

definition finalizeClientSide :: "string \<Rightarrow> int \<Rightarrow> fetch_result \<Rightarrow> controller \<Rightarrow> controller" where
  "finalizeClientSide why now fr st =
     (if \<not> hasFinalizePermission now st then setConvoState Active st
      else
        (case saveConversation
                \<lparr> o_autosave = True, o_reason = orElse why ''user confirmed end'', o_finalize = True,
                  o_confirmed = True, o_close = True \<rparr> now fr (st\<lparr>finalized := True\<rparr>) of
           (ok, t, s1) \<Rightarrow>
             if \<not> ok then sendContinueInstruction (setConvoState Active (s1\<lparr>finalized := False\<rparr>))
             else (case sendClosingMessage (setConvoState Ended s1) of
                     (sent, s2) \<Rightarrow>
                       (let s3 = forceStopSoon t s2
                        in if \<not> sent then stop True t fr fr s3 else s3))))"


section \<open>Confirmation state machine\<close>

definition maybeMarkConfirmationRequested :: "string \<Rightarrow> int \<Rightarrow> controller \<Rightarrow> controller" where
  "maybeMarkConfirmationRequested text now st =
     (if text = [] then st
      else (let lc = toLowerCase text in
        if includesStr lc ''are you sure''
           \<and> (includesStr lc ''end'' \<or> includesStr lc ''finish'' \<or> includesStr lc ''close'')
           \<and> (includesStr lc ''conversation'' \<or> includesStr lc ''session'' \<or> includesStr lc ''call'')
        then setConvoState PendingConfirm
               (st\<lparr>confirmationRequested := True, confirmationGranted := False,
                   confirmationAskedAt := now, confirmAskedTurnIndex := turnIndex st\<rparr>)
        else st))"

definition maybeEvaluateUserConfirmation :: "string \<Rightarrow> int \<Rightarrow> controller \<Rightarrow> controller" where
  "maybeEvaluateUserConfirmation turnText now st =
     (if turnText = [] then st
      else (let st1 = (if isStopIntent turnText then st\<lparr>lastStopIntentTs := now\<rparr> else st) in
        if \<not> confirmationRequested st1 \<and> \<not> isStopIntent turnText then st1
        else if isNegativeTurn turnText then
          sendContinueInstruction
            (setConvoState Active
              ((cancelFinalizeFallback
                  (st1\<lparr>confirmationGranted := False, confirmationRequested := False\<rparr>))
                \<lparr>rejectFinalizeUntilTs := now + 6000\<rparr>))
        else if isAffirmativeTurn turnText then
          (cancelFinalizeFallback (st1\<lparr>confirmationGranted := True\<rparr>))
            \<lparr>finalizeFallbackTimer := Some (now + FINALIZE_FALLBACK_MS)\<rparr>
        else st1))"


section \<open>Events of the realtime channel\<close>

text \<open>
  A channel message after \<^verbatim>\<open>JSON.parse\<close>. The handlers read these properties only:
  \<^verbatim>\<open>type\<close>; the id and name of \<^verbatim>\<open>function_call\<close> or \<^verbatim>\<open>tool_call\<close> when one of them
  is present; \<^verbatim>\<open>id\<close>, \<^verbatim>\<open>name\<close>; \<^verbatim>\<open>delta\<close>, which is absent, a string, or an object that
  may carry a string \<^verbatim>\<open>text\<close>; \<^verbatim>\<open>arguments_delta\<close>; \<^verbatim>\<open>text\<close>, \<^verbatim>\<open>transcript\<close>,
  \<^verbatim>\<open>message\<close> and the array \<^verbatim>\<open>output_text\<close>. An absent string that is only ever used
  under \<^verbatim>\<open>||\<close> is the empty string.
\<close>

datatype delta_field = NoDelta | DeltaStr string | DeltaObj "string option"

record event =
  etype :: string
  fcall :: "(string \<times> string) option"
  eid :: string
  ename :: string
  edelta :: delta_field
  arguments_delta :: string
  etext :: "string option"
  etranscript :: "string option"
  emessage :: "string option"
  output_text :: "string list option"

text \<open>
  The value \<^verbatim>\<open>JSON.parse\<close> returns. \<open>getProp\<close> reads a property the way the handler
  does: only an object has the two properties it asks for, and of a repeated key the last
  one counts. \<^verbatim>\<open>JSON.parse\<close> itself is a parameter \<open>jparse\<close> of the handlers, \<open>None\<close>
  standing for the \<^verbatim>\<open>SyntaxError\<close> it throws.
\<close>

datatype json = JNull | JBool bool | JNum int | JStr string | JArr "json list"
  | JObj "(string \<times> json) list"

definition getProp :: "json \<Rightarrow> string \<Rightarrow> json option" where
  "getProp v k = (case v of JObj kvs \<Rightarrow> map_of (rev kvs) k | _ \<Rightarrow> None)"

definition jsonStrOf :: "string \<Rightarrow> string" where
  "jsonStrOf buf =
     (let s = indexOf buf ''{''; e = lastIndexOf buf ''}''
      in if s \<noteq> -1 \<and> e > s then slice buf s (e + 1) else buf)"

text \<open>The \<^verbatim>\<open>try\<close> block around the extraction and \<^verbatim>\<open>JSON.parse\<close>: a throw leaves \<^verbatim>\<open>{}\<close>.\<close>

definition parseArgs :: "(string \<Rightarrow> json option) \<Rightarrow> string \<Rightarrow> json" where
  "parseArgs jparse buf = (case jparse (jsonStrOf buf) of Some v \<Rightarrow> v | None \<Rightarrow> JObj [])"

definition argReason :: "json \<Rightarrow> string" where
  "argReason args = (case getProp args ''reason'' of Some (JStr r) \<Rightarrow> orElse r ''user ended''
                      | _ \<Rightarrow> ''user ended'')"

definition argConfirmed :: "json \<Rightarrow> bool" where
  "argConfirmed args = (getProp args ''confirmed'' = Some (JBool True))"

text \<open>
  The call object, the buffer key and the function name as the handler resolves them.
\<close>

definition callOf :: "event \<Rightarrow> string \<times> string" where
  "callOf evt = (case fcall evt of Some c \<Rightarrow> c | None \<Rightarrow> ([], []))"

definition callId :: "event \<Rightarrow> string" where
  "callId evt = orElse (fst (callOf evt)) (orElse (eid evt) ''default'')"

definition callName :: "event \<Rightarrow> string" where
  "callName evt = orElse (snd (callOf evt)) (orElse (ename evt) [])"

definition callFnName :: "event \<Rightarrow> string" where
  "callFnName evt = orElse (callName evt) (orElse (ename evt) (orElse (snd (callOf evt)) []))"

definition handleFunctionCallEvent ::
  "(string \<Rightarrow> json option) \<Rightarrow> event \<Rightarrow> int \<Rightarrow> fetch_result \<Rightarrow> controller \<Rightarrow> controller" where
  "handleFunctionCallEvent jparse evt now fr st =
     (let ident = callId evt
      in if etype evt = ''response.function_call.arguments.delta'' \<or> etype evt = ''response.tool_call.delta''
         then (let b0 = (case fnArgBuffers st ident of Some b \<Rightarrow> b | None \<Rightarrow> []);
                   b1 = (case edelta evt of
                           DeltaStr d \<Rightarrow> b0 @ orElse d (arguments_delta evt)
                         | NoDelta \<Rightarrow> b0 @ arguments_delta evt
                         | DeltaObj x \<Rightarrow> b0)
               in st\<lparr>fnArgBuffers := (fnArgBuffers st)(ident \<mapsto> b1)\<rparr>)
         else if etype evt = ''response.function_call.arguments.done'' \<or> etype evt = ''response.tool_call.completed''
         then (let buf = (case fnArgBuffers st ident of Some b \<Rightarrow> b | None \<Rightarrow> []);
                   s0 = st\<lparr>fnArgBuffers := (fnArgBuffers st)(ident := None)\<rparr>;
                   args = parseArgs jparse buf;
                   fnName = callFnName evt
               in if fnName = ''finalize_conversation'' then
                    (let why = argReason args; cfm = argConfirmed args in
                     if now < rejectFinalizeUntilTs s0 then
                       sendContinueInstruction (setConvoState Active s0)
                     else if \<not> (cfm \<and> hasFinalizePermission now s0) then
                       sendContinueInstruction (setConvoState Active s0)
                     else
                       (case saveConversation
                               \<lparr> o_autosave = True, o_reason = why, o_finalize = True,
                                 o_confirmed = True, o_close = True \<rparr> now fr
                               ((cancelFinalizeFallback s0)\<lparr>finalized := True\<rparr>) of
                          (ok, t, s1) \<Rightarrow>
                            if \<not> ok then
                              sendContinueInstruction (setConvoState Active (s1\<lparr>finalized := False\<rparr>))
                            else (case sendClosingMessage (setConvoState Ended s1) of
                                    (sent, s2) \<Rightarrow>
                                      (let s3 = forceStopSoon t s2
                                       in if \<not> sent then stop True t fr fr s3 else s3))))
                  else s0)
         else st)"

definition extractText :: "event \<Rightarrow> string option" where
  "extractText evt =
     (case edelta evt of
        DeltaStr d \<Rightarrow> Some d
      | DeltaObj (Some t) \<Rightarrow> Some t
      | _ \<Rightarrow>
        (case etext evt of Some t \<Rightarrow> Some t | None \<Rightarrow>
        (case etranscript evt of Some t \<Rightarrow> Some t | None \<Rightarrow>
        (case emessage evt of Some t \<Rightarrow> Some t | None \<Rightarrow>
        (case output_text evt of Some xs \<Rightarrow> Some (concat xs) | None \<Rightarrow> None)))))"

definition handleRealtimeEvent ::
  "(string \<Rightarrow> json option) \<Rightarrow> event \<Rightarrow> int \<Rightarrow> fetch_result \<Rightarrow> controller \<Rightarrow> controller" where
  "handleRealtimeEvent jparse evt now fr st =
     (let t = etype evt in
      if indexOf t ''response.function_call'' = 0 \<or> indexOf t ''response.tool_call'' = 0
        then handleFunctionCallEvent jparse evt now fr st
      else if greetingPending st \<and> (t = ''response.completed'' \<or> t = ''response.output_text.done'')
        then stop True now fr fr (st\<lparr>greetingPending := False, greetTimeoutHandle := None\<rparr>)
      else if indexOf t ''transcription.delta'' \<noteq> -1
        then (let st1 = (case extractText evt of
                           Some textU \<Rightarrow>
                             if textU \<noteq> [] then st\<lparr>userEl := userEl st @ textU,
                                                   currentUserTurn := currentUserTurn st @ textU\<rparr>
                             else st
                         | None \<Rightarrow> st)
              in markDirty now st1)
      else if indexOf t ''transcription.completed'' \<noteq> -1
        then (let st1 = st\<lparr>userEl := userEl st @ [CHR 10], turnIndex := turnIndex st + 1\<rparr>;
                  st2 = st1\<lparr>lastUserTurnIndex := turnIndex st1\<rparr>;
                  st3 = maybeEvaluateUserConfirmation (currentUserTurn st2) now st2
              in scheduleAutoSave (Some 3000) now (st3\<lparr>currentUserTurn := []\<rparr>))
      else if t = ''response.output_text.delta''
              \<or> (indexOf t ''response.'' = 0 \<and> indexOf t ''.delta'' = int (length t) - 6)
        then (let st1 = (case extractText evt of
                           Some textA \<Rightarrow>
                             if textA \<noteq> [] then
                               maybeMarkConfirmationRequested textA now (st\<lparr>aiEl := aiEl st @ textA\<rparr>)
                             else st
                         | None \<Rightarrow> st)
              in markDirty now st1)
      else if t = ''response.output_text.done'' \<or> t = ''response.completed''
        then scheduleAutoSave (Some 3000) now
               (st\<lparr>aiEl := aiEl st @ [CHR 10], turnIndex := turnIndex st + 1\<rparr>)
      else st)"


section \<open>The controller as a transition system\<close>

text \<open>
  Everything that makes the script run: the two buttons, the events channel, the peer
  connection, the three kinds of timers and the page unload. \<^verbatim>\<open>start\<close> is reduced to
  the state it resets and to how far it gets: the microphone is refused; the session
  request fails (the session id may have been assigned already); the SDP exchange fails,
  which ends in \<^verbatim>\<open>stop()\<close>; or the call goes live. A timer input acts only when that
  timer is armed and due, and firing disarms it.
\<close>

datatype start_outcome =
    MicDenied
  | SessionFailed "string option"
  | SdpFailed string
  | Live string

datatype input =
    StartClick start_outcome fetch_result fetch_result
  | StopClick fetch_result fetch_result
  | ChannelOpen
  | ChannelMessage event fetch_result
  | ChannelClosed fetch_result
  | ConnectionState string fetch_result
  | AutosaveTimerFires fetch_result
  | FallbackTimerFires fetch_result
  | ForceStopTimerFires
  | BeforeUnload

definition greetingText :: string where
  "greetingText = ''Start with a brief, friendly greeting and ask how you can help the user. Keep it concise. Respond only in English and do not switch languages.''"

definition start ::
  "start_outcome \<Rightarrow> int \<Rightarrow> fetch_result \<Rightarrow> fetch_result \<Rightarrow> controller \<Rightarrow> controller" where
  "start outcome now fr1 fr2 st =
     (let st1 = setConvoState Active
            (st\<lparr>userEl := [], aiEl := [], autosaveTimer := None, dirty := False,
                lastSnapshot := [], lastSaveAt := 0, finalized := False, conversationId := None,
                greetingPending := False, greetTimeoutHandle := None, greeted := False\<rparr>)
      in case outcome of
           MicDenied \<Rightarrow> st1
         | SessionFailed None \<Rightarrow> st1
         | SessionFailed (Some sid) \<Rightarrow> st1\<lparr>sessionId := sid\<rparr>
         | SdpFailed sid \<Rightarrow> stop False now fr1 fr2 (st1\<lparr>sessionId := sid\<rparr>)
         | Live sid \<Rightarrow> st1\<lparr>sessionId := sid\<rparr>)"

definition beforeunload :: "controller \<Rightarrow> controller" where
  "beforeunload st =
     st\<lparr>emitted := emitted st @
        [Beacon \<lparr> session_id = orElse (sessionId st) [], user_text = orElse (userEl st) [],
                  ai_text = orElse (aiEl st) [], autosave = True, reason = ''beforeunload'',
                  close = False, finalize = False, confirmed = False,
                  conversation_id = conversationId st \<rparr>]\<rparr>"

definition step ::
  "(string \<Rightarrow> json option) \<Rightarrow> int \<Rightarrow> input \<Rightarrow> controller \<Rightarrow> controller" where
  "step jparse now inp st =
     (case inp of
        StartClick outcome fr1 fr2 \<Rightarrow> start outcome now fr1 fr2 st
      | StopClick fr1 fr2 \<Rightarrow> stop False now fr1 fr2 st
      | ChannelOpen \<Rightarrow>
          (let st1 = st\<lparr>dcOpen := True\<rparr> in
           if \<not> greeted st1
           then st1\<lparr>greeted := True, emitted := emitted st1 @ [Instruction greetingText]\<rparr>
           else st1)
      | ChannelMessage evt fr \<Rightarrow> handleRealtimeEvent jparse evt now fr st
      | ChannelClosed fr \<Rightarrow> tryAutoSave ''channel_closed'' now fr st
      | ConnectionState cs fr \<Rightarrow>
          (if cs = ''disconnected'' \<or> cs = ''failed'' \<or> cs = ''closed''
           then tryAutoSave (''connection_'' @ cs) now fr st else st)
      | AutosaveTimerFires fr \<Rightarrow>
          (case autosaveTimer st of
             Some due \<Rightarrow> if due \<le> now then tryAutoSave ''idle'' now fr (st\<lparr>autosaveTimer := None\<rparr>)
                         else st
           | None \<Rightarrow> st)
      | FallbackTimerFires fr \<Rightarrow>
          (case finalizeFallbackTimer st of
             Some due \<Rightarrow> if due \<le> now
                         then finalizeClientSide ''user confirmed end (fallback)'' now fr
                                (st\<lparr>finalizeFallbackTimer := None\<rparr>)
                         else st
           | None \<Rightarrow> st)
      | ForceStopTimerFires \<Rightarrow>
          (case filter (\<lambda>due. due \<le> now) (forceStopTimers st) of
             [] \<Rightarrow> st
           | due # rest \<Rightarrow>
               stop True now (NetworkError now) (NetworkError now)
                 (st\<lparr>forceStopTimers := remove1 due (forceStopTimers st)\<rparr>))
      | BeforeUnload \<Rightarrow> beforeunload st)"

text \<open>
  The two messages of a user turn as the realtime channel delivers them, and a turn that
  arrives as one delta followed by its completion.
\<close>

definition blankEvent :: "string \<Rightarrow> event" where
  "blankEvent t = \<lparr> etype = t, fcall = None, eid = [], ename = [], edelta = NoDelta,
     arguments_delta = [], etext = None, etranscript = None, emessage = None,
     output_text = None \<rparr>"

definition transcriptionDelta :: "string \<Rightarrow> event" where
  "transcriptionDelta text =
     (blankEvent ''conversation.item.input_audio_transcription.delta'')\<lparr>edelta := DeltaStr text\<rparr>"

definition transcriptionCompleted :: event where
  "transcriptionCompleted = blankEvent ''conversation.item.input_audio_transcription.completed''"

definition userTurn :: "int \<Rightarrow> string \<Rightarrow> (int \<times> input) list" where
  "userTurn now text =
     [(now, ChannelMessage (transcriptionDelta text) (NetworkError now)),
      (now, ChannelMessage transcriptionCompleted (NetworkError now))]"

text \<open>A run: inputs with the instant at which each is handled, oldest first.\<close>

fun run :: "(string \<Rightarrow> json option) \<Rightarrow> (int \<times> input) list \<Rightarrow> controller \<Rightarrow> controller" where
  "run jparse [] st = st"
| "run jparse ((now, inp) # rest) st = run jparse rest (step jparse now inp st)"


section \<open>Notions used in the statements\<close>

text \<open>The save requests among what was emitted, in order.\<close>

definition postsOf :: "effect list \<Rightarrow> save_request list" where
  "postsOf es = concat (map (\<lambda>e. case e of Post r \<Rightarrow> [r] | _ \<Rightarrow> []) es)"

text \<open>
  The message types that \<^verbatim>\<open>handleRealtimeEvent\<close> treats as a text delta, of the user
  or of the assistant: the tests of its two branches that end in \<^verbatim>\<open>markDirty()\<close>,
  together with the tests that have to fail before each is reached.
\<close>

definition isTextDeltaType :: "string \<Rightarrow> bool" where
  "isTextDeltaType t =
     (indexOf t ''response.function_call'' \<noteq> 0 \<and> indexOf t ''response.tool_call'' \<noteq> 0
      \<and> (indexOf t ''transcription.delta'' \<noteq> -1
           \<or> (indexOf t ''transcription.completed'' = -1
               \<and> (t = ''response.output_text.delta''
                    \<or> (indexOf t ''response.'' = 0 \<and> indexOf t ''.delta'' = int (length t) - 6)))))"

text \<open>The payload \<^verbatim>\<open>saveConversation\<close> builds from its options and the state.\<close>

definition payloadOf :: "save_options \<Rightarrow> controller \<Rightarrow> save_request" where
  "payloadOf options st =
     \<lparr> session_id = sessionId st, user_text = userEl st, ai_text = aiEl st,
       autosave = o_autosave options,
       reason = (if o_reason options \<noteq> [] then o_reason options
                 else if o_autosave options then ''autosave'' else ''manual''),
       close = o_close options, finalize = o_finalize options,
       confirmed = o_confirmed options, conversation_id = conversationId st \<rparr>"

text \<open>The options of the two saves of \<^verbatim>\<open>stop\<close>.\<close>

definition stopBaseOptions :: save_options where
  "stopBaseOptions = \<lparr> o_autosave = True, o_reason = ''manual_stop'', o_finalize = False,
                        o_confirmed = False, o_close = False \<rparr>"

definition stopFinalizeOptions :: save_options where
  "stopFinalizeOptions = \<lparr> o_autosave = True, o_reason = ''manual_stop_finalize'',
                            o_finalize = True, o_confirmed = True, o_close = True \<rparr>"

definition autosaveOptions :: save_options where
  "autosaveOptions = \<lparr> o_autosave = True, o_reason = ''idle'', o_finalize = False,
                        o_confirmed = False, o_close = False \<rparr>"


text \<open>
  The message types that \<^verbatim>\<open>handleRealtimeEvent\<close> treats as the completion of a user
  turn.
\<close>

definition isUserTurnCompleted :: "string \<Rightarrow> bool" where
  "isUserTurnCompleted t =
     (indexOf t ''response.function_call'' \<noteq> 0 \<and> indexOf t ''response.tool_call'' \<noteq> 0
      \<and> indexOf t ''transcription.delta'' = -1 \<and> indexOf t ''transcription.completed'' \<noteq> -1)"


text \<open>
  The state in which a user turn is evaluated: the delta has been appended and the turn
  counted.
\<close>

definition turnClosed :: "int \<Rightarrow> string \<Rightarrow> controller \<Rightarrow> controller" where
  "turnClosed now text st =
     (markDirty now (st\<lparr>userEl := userEl st @ text, currentUserTurn := currentUserTurn st @ text\<rparr>))
       \<lparr>userEl := userEl st @ text @ [CHR 10], turnIndex := turnIndex st + 1,
        lastUserTurnIndex := turnIndex st + 1\<rparr>"


text \<open>
  A request that is sent with \<^verbatim>\<open>finalize\<close> carries \<^verbatim>\<open>confirmed\<close>, and a controller
  all of whose requests are such.
\<close>

definition confirmedIfFinal :: "effect \<Rightarrow> bool" where
  "confirmedIfFinal e =
     (case e of Post r \<Rightarrow> finalize r \<longrightarrow> confirmed r
              | Beacon r \<Rightarrow> finalize r \<longrightarrow> confirmed r
              | _ \<Rightarrow> True)"

definition allConfirmed :: "controller \<Rightarrow> bool" where
  "allConfirmed st = list_all confirmedIfFinal (emitted st)"







section \<open>Example states and messages\<close>

definition T0 :: int where "T0 = 1700000000000"

text \<open>A parser that knows one argument string, for the examples.\<close>

definition jparseExample :: "string \<Rightarrow> json option" where
  \<open>jparseExample s =
     (if s = ''{"confirmed": true}'' then Some (JObj [(''confirmed'', JBool True)]) else None)\<close>

definition finalizeDone :: event where
  "finalizeDone = (blankEvent ''response.function_call.arguments.done'')
                    \<lparr>eid := ''call_1'', ename := ''finalize_conversation''\<rparr>"

text \<open>
  The user asked to stop, said yes, then changed their mind a second ago; the tool call
  with \<^verbatim>\<open>confirmed: true\<close> is already buffered.
\<close>

definition lockedOut :: controller where
  \<open>lockedOut = boot\<lparr>userEl := ''stop\<newline>yes\<newline>no wait\<newline>'', dcOpen := True,
     confirmationGranted := True, lastStopIntentTs := T0, lastUserTurnIndex := 3, turnIndex := 3,
     rejectFinalizeUntilTs := T0 + 6000,
     fnArgBuffers := [''call_1'' \<mapsto> ''{"confirmed": true}'']\<rparr>\<close>


text \<open>
  The assistant asked and the user said yes after it; a lockout from an earlier refusal runs
  until nine seconds after the question.
\<close>

definition askedAndGranted :: controller where
  "askedAndGranted = boot\<lparr>confirmationRequested := True, confirmationAskedAt := T0,
     confirmAskedTurnIndex := 3, lastUserTurnIndex := 4, confirmationGranted := True,
     rejectFinalizeUntilTs := T0 + 9000\<rparr>"

text \<open>A live call with some transcript, never saved, nothing asked.\<close>

definition talking :: controller where
  \<open>talking = boot\<lparr>userEl := ''hello\<newline>'', aiEl := ''Hi, how can I help?\<newline>'',
     dcOpen := True, sessionId := ''sess_1'', greeted := True, dirty := True, turnIndex := 2,
     lastUserTurnIndex := 1\<rparr>\<close>

text \<open>The same call once its finalize request was acknowledged.\<close>

definition finalizedCall :: controller where
  "finalizedCall = talking\<lparr>finalized := True, convoState := Ended, dirty := False,
     conversationId := Some 7, lastSaveAt := T0\<rparr>"


text \<open>The tool call arrives for a question that was asked and answered with yes.\<close>

definition confirmedCall :: controller where
  \<open>confirmedCall = askedAndGranted\<lparr>userEl := ''please end\<newline>yes\<newline>'',
     aiEl := ''Are you sure you want to end this conversation?\<newline>'', dcOpen := True,
     sessionId := ''sess_1'', convoState := PendingConfirm, turnIndex := 4,
     fnArgBuffers := [''call_1'' \<mapsto> ''{"confirmed": true}'']\<rparr>\<close>

text \<open>A call that has just gone live, and three short conversations on it.\<close>

definition liveCall :: controller where
  "liveCall = run jparseExample
     [(T0 - 5000, StartClick (Live ''sess_1'') (NetworkError (T0 - 5000)) (NetworkError (T0 - 5000))),
      (T0 - 4000, ChannelOpen)] boot"


definition okAfterStop :: controller where
  "okAfterStop = run jparseExample (userTurn T0 ''stop'' @ userTurn (T0 + 5000) ''ok'') liveCall"

definition helloCall :: controller where
  "helloCall = run jparseExample (userTurn T0 ''hello'') liveCall"

definition stoppedCall :: controller where
  "stoppedCall = step jparseExample (T0 + 20000)
     (StopClick (Response True (Some 7) (T0 + 20150)) (Response True (Some 7) (T0 + 20300))) helloCall"


section \<open>Basic facts\<close>

lemma postsOf_append [simp]: "postsOf (xs @ ys) = postsOf xs @ postsOf ys"
  by (simp add: postsOf_def)

lemma postsOf_simps [simp]:
  "postsOf [] = []"
  "postsOf (Post r # es) = r # postsOf es"
  "postsOf (Beacon r # es) = postsOf es"
  "postsOf (Instruction i # es) = postsOf es"
  "postsOf (ConvoStateEvent c # es) = postsOf es"
  by (simp_all add: postsOf_def)

lemma setConvoState_fields [simp]:
  "convoState (setConvoState c st) = c"
  "postsOf (emitted (setConvoState c st)) = postsOf (emitted st)"
  "finalized (setConvoState c st) = finalized st"
  "dirty (setConvoState c st) = dirty st"
  "autosaveTimer (setConvoState c st) = autosaveTimer st"
  "dcOpen (setConvoState c st) = dcOpen st"
  "confirmationGranted (setConvoState c st) = confirmationGranted st"
  "confirmationRequested (setConvoState c st) = confirmationRequested st"
  "finalizeFallbackTimer (setConvoState c st) = finalizeFallbackTimer st"
  "rejectFinalizeUntilTs (setConvoState c st) = rejectFinalizeUntilTs st"
  "currentUserTurn (setConvoState c st) = currentUserTurn st"
  "greetingPending (setConvoState c st) = greetingPending st"
  by (simp_all add: setConvoState_def)

lemma sendContinueInstruction_fields [simp]:
  "convoState (sendContinueInstruction st) = convoState st"
  "postsOf (emitted (sendContinueInstruction st)) = postsOf (emitted st)"
  "finalized (sendContinueInstruction st) = finalized st"
  "dirty (sendContinueInstruction st) = dirty st"
  "autosaveTimer (sendContinueInstruction st) = autosaveTimer st"
  "confirmationGranted (sendContinueInstruction st) = confirmationGranted st"
  "confirmationRequested (sendContinueInstruction st) = confirmationRequested st"
  "finalizeFallbackTimer (sendContinueInstruction st) = finalizeFallbackTimer st"
  "rejectFinalizeUntilTs (sendContinueInstruction st) = rejectFinalizeUntilTs st"
  "currentUserTurn (sendContinueInstruction st) = currentUserTurn st"
  "greetingPending (sendContinueInstruction st) = greetingPending st"
  by (simp_all add: sendContinueInstruction_def)

lemma route_done:
  "indexOf ''response.function_call.arguments.done'' ''response.function_call'' = 0"
  "indexOf ''response.tool_call.completed'' ''response.function_call'' \<noteq> 0"
  "indexOf ''response.tool_call.completed'' ''response.tool_call'' = 0"
  by simp_all

lemma done_event_routed:
  assumes "etype evt = ''response.function_call.arguments.done''
           \<or> etype evt = ''response.tool_call.completed''"
  shows "handleRealtimeEvent jparse evt now fr st = handleFunctionCallEvent jparse evt now fr st"
  using assms by (auto simp: handleRealtimeEvent_def route_done)

lemma saveConversation_frame:
  "finalized (snd (snd (saveConversation opts now fr st))) = finalized st"
  "convoState (snd (snd (saveConversation opts now fr st))) = convoState st"
  "confirmationGranted (snd (snd (saveConversation opts now fr st))) = confirmationGranted st"
  by (auto simp: saveConversation_def Let_def split: fetch_result.splits)

lemma saveConversation_nonfinal_posts:
  "\<not> o_finalize opts \<Longrightarrow>
   filter finalize (postsOf (emitted (snd (snd (saveConversation opts now fr st)))))
     = filter finalize (postsOf (emitted st))"
  by (auto simp: saveConversation_def Let_def split: fetch_result.splits)

lemma stop_unfold:
  "stop False now fr1 fr2 st =
     (let p1 = saveConversation stopBaseOptions now fr1 st;
          sa = snd (snd p1);
          p2 = saveConversation stopFinalizeOptions (fst (snd p1)) fr2 sa;
          sb = snd (snd p2);
          st1 = (if \<not> finalized sa \<and> fst p1
                 then (if fst p2 then setConvoState Ended (sb\<lparr>finalized := True\<rparr>) else sb)
                 else sa)
      in (cancelFinalizeFallback (st1\<lparr>autosaveTimer := None, greetTimeoutHandle := None\<rparr>))
           \<lparr>rejectFinalizeUntilTs := 0, lastStopIntentTs := 0, dcOpen := False\<rparr>)"
  by (simp add: stop_def stopBaseOptions_def stopFinalizeOptions_def Let_def split: prod.splits)

lemma trim_eq_Nil: "trim s = [] \<longleftrightarrow> (\<forall>c \<in> set s. isSpace c)"
proof
  assume "trim s = []"
  then have all: "\<forall>x \<in> set (dropWhile isSpace s). isSpace x"
    by (simp add: trim_def dropWhile_eq_Nil_conv)
  have "dropWhile isSpace s = []"
  proof (rule ccontr)
    assume ne: "dropWhile isSpace s \<noteq> []"
    then have "\<not> isSpace (hd (dropWhile isSpace s))" by (rule hd_dropWhile)
    moreover have "hd (dropWhile isSpace s) \<in> set (dropWhile isSpace s)" using ne by simp
    ultimately show False using all by blast
  qed
  then show "\<forall>c \<in> set s. isSpace c" by (simp add: dropWhile_eq_Nil_conv)
next
  assume "\<forall>c \<in> set s. isSpace c"
  then have "dropWhile isSpace s = []" by (simp add: dropWhile_eq_Nil_conv)
  then show "trim s = []" by (simp only: trim_def rev.simps dropWhile.simps)
qed

text \<open>
  The snapshot always holds the separator line between the two transcripts, so the test
  for an empty snapshot at the head of \<^verbatim>\<open>saveConversation\<close> never succeeds.
\<close>

lemma snapshot_never_blank: "trim (currentSnapshot st) \<noteq> []"
  by (auto simp: trim_eq_Nil currentSnapshot_def isSpace_def)


lemma indexOf_single_none: "c \<notin> set s \<Longrightarrow> indexOf s [c] = -1"
  by (induction s) auto



lemma rejected_call:
  assumes "etype evt = ''response.function_call.arguments.done''
           \<or> etype evt = ''response.tool_call.completed''"
      and "callFnName evt = ''finalize_conversation''"
      and "now < rejectFinalizeUntilTs st
           \<or> \<not> argConfirmed (parseArgs jparse (case fnArgBuffers st (callId evt) of
                                                 Some b \<Rightarrow> b | None \<Rightarrow> []))"
  shows "step jparse now (ChannelMessage evt fr) st =
           sendContinueInstruction (setConvoState Active
             (st\<lparr>fnArgBuffers := (fnArgBuffers st)(callId evt := None)\<rparr>))"
proof -
  have "handleFunctionCallEvent jparse evt now fr st =
          sendContinueInstruction (setConvoState Active
            (st\<lparr>fnArgBuffers := (fnArgBuffers st)(callId evt := None)\<rparr>))"
    using assms by (auto simp: handleFunctionCallEvent_def Let_def)
  then show ?thesis
    by (simp add: step_def done_event_routed [OF assms(1)])
qed

lemma run_append: "run jparse (xs @ ys) st = run jparse ys (run jparse xs st)"
  by (induction xs arbitrary: st) auto

lemma liveCall_eq:
  "liveCall = boot\<lparr>dcOpen := True, sessionId := ''sess_1'', greeted := True,
                   emitted := [Instruction greetingText]\<rparr>"
  by (simp add: liveCall_def step_def start_def setConvoState_def boot_def)


lemma user_turn_completed:
  assumes "isUserTurnCompleted (etype evt)"
  shows "step jparse now (ChannelMessage evt fr) st =
           scheduleAutoSave (Some 3000) now
             ((maybeEvaluateUserConfirmation (currentUserTurn st) now
                 (st\<lparr>userEl := userEl st @ [CHR 10], turnIndex := turnIndex st + 1,
                     lastUserTurnIndex := turnIndex st + 1\<rparr>))\<lparr>currentUserTurn := []\<rparr>)"
proof -
  have "\<not> isUserTurnCompleted ''response.completed''"
       "\<not> isUserTurnCompleted ''response.output_text.done''"
    by (simp_all add: isUserTurnCompleted_def)
  with assms have "etype evt \<noteq> ''response.completed''" "etype evt \<noteq> ''response.output_text.done''"
    by auto
  with assms show ?thesis
    by (simp add: step_def handleRealtimeEvent_def isUserTurnCompleted_def Let_def)
qed

lemma transcriptionDelta_step:
  "text \<noteq> [] \<Longrightarrow>
   step jparse now (ChannelMessage (transcriptionDelta text) fr) st =
     markDirty now (st\<lparr>userEl := userEl st @ text, currentUserTurn := currentUserTurn st @ text\<rparr>)"
  by (simp add: step_def handleRealtimeEvent_def transcriptionDelta_def blankEvent_def Let_def
        extractText_def)

lemma transcriptionCompleted_type: "isUserTurnCompleted (etype transcriptionCompleted)"
  by (simp add: transcriptionCompleted_def blankEvent_def isUserTurnCompleted_def)

lemma userTurn_run:
  assumes "text \<noteq> []" and "currentUserTurn st = []"
  shows "run jparse (userTurn now text) st =
           scheduleAutoSave (Some 3000) now
             ((maybeEvaluateUserConfirmation text now (turnClosed now text st))\<lparr>currentUserTurn := []\<rparr>)"
  using assms
  by (simp add: userTurn_def transcriptionDelta_step user_turn_completed [OF transcriptionCompleted_type]
        turnClosed_def markDirty_def scheduleAutoSave_def)

lemma userTurn_currentUserTurn:
  "text \<noteq> [] \<Longrightarrow> currentUserTurn (run jparse (userTurn now text) st) = []"
  by (simp add: userTurn_def transcriptionDelta_step user_turn_completed [OF transcriptionCompleted_type]
        scheduleAutoSave_def)

lemma evaluate_skipped:
  "text \<noteq> [] \<Longrightarrow> \<not> confirmationRequested st \<Longrightarrow> \<not> isStopIntent text
   \<Longrightarrow> maybeEvaluateUserConfirmation text now st = st"
  by (simp add: maybeEvaluateUserConfirmation_def)

lemma evaluate_unclear:
  "text \<noteq> [] \<Longrightarrow> isStopIntent text \<Longrightarrow> \<not> isNegativeTurn text \<Longrightarrow> \<not> isAffirmativeTurn text
   \<Longrightarrow> maybeEvaluateUserConfirmation text now st = st\<lparr>lastStopIntentTs := now\<rparr>"
  by (simp add: maybeEvaluateUserConfirmation_def)



section \<open>The permission predicate\<close>

text \<open>
  C5. \<^verbatim>\<open>hasFinalizePermission()\<close> is true exactly when the classic branch holds (a
  confirmation was requested at most 90 s ago, a user turn completed after the question,
  and it was granted) or the fallback branch holds (a stop intent at most 20 s ago,
  granted, and the lockout instant has been reached). The classic branch does not read the
  lockout instant: when it holds, the predicate is true whatever that instant is.
\<close>

theorem hasFinalizePermission_iff:
  "(hasFinalizePermission now st \<longleftrightarrow>
      (confirmationRequested st \<and> now - confirmationAskedAt st \<le> 90000
         \<and> confirmAskedTurnIndex st < lastUserTurnIndex st \<and> confirmationGranted st)
      \<or> (now - lastStopIntentTs st \<le> 20000 \<and> confirmationGranted st
         \<and> rejectFinalizeUntilTs st \<le> now))
   \<and> (confirmationRequested st \<and> now - confirmationAskedAt st \<le> 90000
         \<and> confirmAskedTurnIndex st < lastUserTurnIndex st \<and> confirmationGranted st
       \<longrightarrow> (\<forall>lockout. hasFinalizePermission now (st\<lparr>rejectFinalizeUntilTs := lockout\<rparr>)))"
  by (auto simp: hasFinalizePermission_def CONFIRM_WINDOW_MS_def STOP_INTENT_WINDOW_MS_def)

theorem hasFinalizePermission_iff_witness:
  "confirmationRequested askedAndGranted
   \<and> (T0 + 5000) - confirmationAskedAt askedAndGranted \<le> 90000
   \<and> confirmAskedTurnIndex askedAndGranted < lastUserTurnIndex askedAndGranted
   \<and> confirmationGranted askedAndGranted
   \<and> T0 + 5000 < rejectFinalizeUntilTs askedAndGranted
   \<and> hasFinalizePermission (T0 + 5000) askedAndGranted
   \<and> hasFinalizePermission (T0 + 5000) (askedAndGranted\<lparr>rejectFinalizeUntilTs := T0 + 99000\<rparr>)"
  using hasFinalizePermission_iff [of "T0 + 5000" askedAndGranted]
  by (simp add: askedAndGranted_def boot_def)


section \<open>The lockout after a negative reply\<close>

text \<open>
  C2. When the completion event of a \<^verbatim>\<open>finalize_conversation\<close> call is handled at an
  instant strictly before \<^verbatim>\<open>rejectFinalizeUntilTs\<close>, no save request is issued,
  \<^verbatim>\<open>finalized\<close> keeps its value (so it stays false), and the lifecycle state is active
  afterwards. Nothing is assumed about the arguments of the call or about the
  confirmation state, so this holds for a call with \<^verbatim>\<open>confirmed: true\<close> whatever
  the other permission conditions are.
\<close>

theorem lockout_rejects_finalize:
  assumes "etype evt = ''response.function_call.arguments.done''
           \<or> etype evt = ''response.tool_call.completed''"
      and "callFnName evt = ''finalize_conversation''"
      and "now < rejectFinalizeUntilTs st"
  shows "postsOf (emitted (step jparse now (ChannelMessage evt fr) st)) = postsOf (emitted st)
         \<and> finalized (step jparse now (ChannelMessage evt fr) st) = finalized st
         \<and> convoState (step jparse now (ChannelMessage evt fr) st) = Active"
  using assms by (simp add: rejected_call)

theorem lockout_rejects_finalize_witness:
  "(etype finalizeDone = ''response.function_call.arguments.done''
      \<or> etype finalizeDone = ''response.tool_call.completed'')
   \<and> callFnName finalizeDone = ''finalize_conversation''
   \<and> argConfirmed (parseArgs jparseExample (the (fnArgBuffers lockedOut (callId finalizeDone))))
   \<and> T0 + 1000 < rejectFinalizeUntilTs lockedOut
   \<and> postsOf (emitted (step jparseExample (T0 + 1000)
                 (ChannelMessage finalizeDone (Response True (Some 7) (T0 + 1200))) lockedOut))
       = postsOf (emitted lockedOut)
   \<and> finalized (step jparseExample (T0 + 1000)
                 (ChannelMessage finalizeDone (Response True (Some 7) (T0 + 1200))) lockedOut)
       = finalized lockedOut
   \<and> convoState (step jparseExample (T0 + 1000)
                 (ChannelMessage finalizeDone (Response True (Some 7) (T0 + 1200))) lockedOut)
       = Active"
proof -
  have h1: "etype finalizeDone = ''response.function_call.arguments.done''
      \<or> etype finalizeDone = ''response.tool_call.completed''"
    by (simp add: finalizeDone_def blankEvent_def)
  have h2: "callFnName finalizeDone = ''finalize_conversation''"
    by (simp add: finalizeDone_def blankEvent_def callFnName_def callName_def callOf_def orElse_def)
  have h3: "T0 + 1000 < rejectFinalizeUntilTs lockedOut"
    by (simp add: lockedOut_def T0_def)
  have h4: "argConfirmed (parseArgs jparseExample (the (fnArgBuffers lockedOut (callId finalizeDone))))"
    by code_simp
  show ?thesis
    using h1 h2 h3 h4 lockout_rejects_finalize [OF h1 h2 h3] by simp
qed


section \<open>Two-phase stop\<close>

text \<open>
  C7. In \<^verbatim>\<open>stop()\<close> on a session that is not finalized: when the phase-1 save (not
  final) does not report ok, no finalize request is sent, \<^verbatim>\<open>finalized\<close> stays false and
  the lifecycle state is left as it was; \<^verbatim>\<open>finalized\<close> is true afterwards exactly when
  phase 1 reported ok and the phase-2 finalize save, issued once phase 1 has settled,
  reported ok; then the lifecycle state is ended, and otherwise it is unchanged. A phase-1
  save that is sent (no save in flight, 10 s since the last one) reports ok exactly when
  the server answers ok, and so does the finalize save in every state.
\<close>

theorem stop_two_phase:
  assumes "\<not> finalized st"
  shows "(\<not> fst (saveConversation stopBaseOptions now fr1 st) \<longrightarrow>
            filter finalize (postsOf (emitted (stop False now fr1 fr2 st)))
              = filter finalize (postsOf (emitted st))
            \<and> \<not> finalized (stop False now fr1 fr2 st)
            \<and> convoState (stop False now fr1 fr2 st) = convoState st)
       \<and> (finalized (stop False now fr1 fr2 st) \<longleftrightarrow>
            fst (saveConversation stopBaseOptions now fr1 st)
            \<and> fst (saveConversation stopFinalizeOptions
                     (fst (snd (saveConversation stopBaseOptions now fr1 st))) fr2
                     (snd (snd (saveConversation stopBaseOptions now fr1 st)))))
       \<and> (finalized (stop False now fr1 fr2 st) \<longrightarrow> convoState (stop False now fr1 fr2 st) = Ended)
       \<and> (\<not> finalized (stop False now fr1 fr2 st) \<longrightarrow>
            convoState (stop False now fr1 fr2 st) = convoState st)
       \<and> (\<not> saving st \<and> 10000 \<le> now - lastSaveAt st \<longrightarrow>
            fst (saveConversation stopBaseOptions now fr1 st) = (\<exists>i t. fr1 = Response True i t))
       \<and> fst (saveConversation stopFinalizeOptions later fr2 s) = (\<exists>i t. fr2 = Response True i t)"
proof -
  have sent1: "fst (saveConversation stopBaseOptions now fr1 st) = (\<exists>i t. fr1 = Response True i t)"
    if "\<not> saving st" "10000 \<le> now - lastSaveAt st"
    using that snapshot_never_blank [of st]
    by (auto simp: saveConversation_def Let_def stopBaseOptions_def MIN_SAVE_INTERVAL_MS_def
          split: fetch_result.splits)
  have sent2: "fst (saveConversation stopFinalizeOptions later fr2 s) = (\<exists>i t. fr2 = Response True i t)"
    using snapshot_never_blank [of s]
    by (auto simp: saveConversation_def Let_def stopFinalizeOptions_def split: fetch_result.splits)
  have phases: "(\<not> fst (saveConversation stopBaseOptions now fr1 st) \<longrightarrow>
            filter finalize (postsOf (emitted (stop False now fr1 fr2 st)))
              = filter finalize (postsOf (emitted st))
            \<and> \<not> finalized (stop False now fr1 fr2 st)
            \<and> convoState (stop False now fr1 fr2 st) = convoState st)
       \<and> (finalized (stop False now fr1 fr2 st) \<longleftrightarrow>
            fst (saveConversation stopBaseOptions now fr1 st)
            \<and> fst (saveConversation stopFinalizeOptions
                     (fst (snd (saveConversation stopBaseOptions now fr1 st))) fr2
                     (snd (snd (saveConversation stopBaseOptions now fr1 st)))))
       \<and> (finalized (stop False now fr1 fr2 st) \<longrightarrow> convoState (stop False now fr1 fr2 st) = Ended)
       \<and> (\<not> finalized (stop False now fr1 fr2 st) \<longrightarrow>
            convoState (stop False now fr1 fr2 st) = convoState st)"
    using assms
    by (simp add: stop_unfold Let_def cancelFinalizeFallback_def saveConversation_frame
          saveConversation_nonfinal_posts stopBaseOptions_def)
  from phases sent1 sent2 show ?thesis by blast
qed

theorem stop_two_phase_witness:
  "\<not> finalized talking
   \<and> \<not> fst (saveConversation stopBaseOptions T0 (Response False None (T0 + 150)) talking)
   \<and> filter finalize (postsOf (emitted
        (stop False T0 (Response False None (T0 + 150)) (Response True (Some 7) (T0 + 300)) talking)))
      = []
   \<and> \<not> finalized (stop False T0 (Response False None (T0 + 150)) (Response True (Some 7) (T0 + 300)) talking)
   \<and> convoState (stop False T0 (Response False None (T0 + 150)) (Response True (Some 7) (T0 + 300)) talking)
      = Active
   \<and> finalized (stop False T0 (Response True (Some 7) (T0 + 150)) (Response True (Some 7) (T0 + 300)) talking)
   \<and> convoState (stop False T0 (Response True (Some 7) (T0 + 150)) (Response True (Some 7) (T0 + 300)) talking)
      = Ended
   \<and> \<not> finalized (stop False T0 (Response True (Some 7) (T0 + 150)) (NetworkError (T0 + 300)) talking)"
proof -
  have h: "\<not> finalized talking" by (simp add: talking_def boot_def)
  have f1: "\<not> fst (saveConversation stopBaseOptions T0 (Response False None (T0 + 150)) talking)"
    by code_simp
  have e: "filter finalize (postsOf (emitted talking)) = []" "convoState talking = Active"
    by (simp_all add: talking_def boot_def)
  have ok1: "fst (saveConversation stopBaseOptions T0 (Response True (Some 7) (T0 + 150)) talking)"
    by code_simp
  have ok2: "fst (saveConversation stopFinalizeOptions
                     (fst (snd (saveConversation stopBaseOptions T0 (Response True (Some 7) (T0 + 150)) talking)))
                     (Response True (Some 7) (T0 + 300))
                     (snd (snd (saveConversation stopBaseOptions T0 (Response True (Some 7) (T0 + 150)) talking))))"
    by code_simp
  have ko2: "\<not> fst (saveConversation stopFinalizeOptions
                     (fst (snd (saveConversation stopBaseOptions T0 (Response True (Some 7) (T0 + 150)) talking)))
                     (NetworkError (T0 + 300))
                     (snd (snd (saveConversation stopBaseOptions T0 (Response True (Some 7) (T0 + 150)) talking))))"
    by code_simp
  show ?thesis
    using h f1 e ok1 ok2 ko2
      stop_two_phase [OF h, where now = T0 and ?fr1.0 = "Response False None (T0 + 150)"
        and ?fr2.0 = "Response True (Some 7) (T0 + 300)"]
      stop_two_phase [OF h, where now = T0 and ?fr1.0 = "Response True (Some 7) (T0 + 150)"
        and ?fr2.0 = "Response True (Some 7) (T0 + 300)"]
      stop_two_phase [OF h, where now = T0 and ?fr1.0 = "Response True (Some 7) (T0 + 150)"
        and ?fr2.0 = "NetworkError (T0 + 300)"]
    by simp
qed


section \<open>The guards of a save\<close>

text \<open>
  C8, as amended. With a snapshot that is not blank: a request that is not a finalize and
  that finds a save in flight sends nothing, leaves the state alone and reports failure
  (ok is false); an autosave that is not a finalize, with no save in flight, less than
  10 s after the last successful save sends nothing and reports success; and a request
  with \<^verbatim>\<open>finalize\<close> set is sent whatever the in-flight flag and the time of the last
  save are.
\<close>

theorem save_guards:
  assumes "trim (currentSnapshot st) \<noteq> []"
  shows "(saving st \<and> \<not> o_finalize opts \<longrightarrow> saveConversation opts now fr st = (False, now, st))
       \<and> (\<not> saving st \<and> \<not> o_finalize opts \<and> o_autosave opts \<and> now - lastSaveAt st < 10000
            \<longrightarrow> saveConversation opts now fr st = (True, now, st))
       \<and> (o_finalize opts \<longrightarrow>
            emitted (snd (snd (saveConversation opts now fr st)))
              = emitted st @ [Post (payloadOf opts st)]
            \<and> finalize (payloadOf opts st))"
  using assms
  by (auto simp: saveConversation_def Let_def MIN_SAVE_INTERVAL_MS_def payloadOf_def orElse_def
        aiTextSanitized_def split: fetch_result.splits)

theorem save_guards_witness:
  "trim (currentSnapshot (talking\<lparr>saving := True\<rparr>)) \<noteq> []
   \<and> saving (talking\<lparr>saving := True\<rparr>) \<and> \<not> o_finalize autosaveOptions
   \<and> saveConversation autosaveOptions T0 (Response True (Some 7) (T0 + 150)) (talking\<lparr>saving := True\<rparr>)
       = (False, T0, talking\<lparr>saving := True\<rparr>)
   \<and> \<not> saving (talking\<lparr>lastSaveAt := T0 - 4000\<rparr>) \<and> o_autosave autosaveOptions
   \<and> T0 - lastSaveAt (talking\<lparr>lastSaveAt := T0 - 4000\<rparr>) < 10000
   \<and> saveConversation autosaveOptions T0 (Response True (Some 7) (T0 + 150)) (talking\<lparr>lastSaveAt := T0 - 4000\<rparr>)
       = (True, T0, talking\<lparr>lastSaveAt := T0 - 4000\<rparr>)
   \<and> o_finalize stopFinalizeOptions
   \<and> emitted (snd (snd (saveConversation stopFinalizeOptions T0 (Response True (Some 7) (T0 + 150))
                 (talking\<lparr>saving := True, lastSaveAt := T0 - 4000\<rparr>))))
       = emitted (talking\<lparr>saving := True, lastSaveAt := T0 - 4000\<rparr>)
           @ [Post (payloadOf stopFinalizeOptions (talking\<lparr>saving := True, lastSaveAt := T0 - 4000\<rparr>))]"
  using save_guards [OF snapshot_never_blank, of "talking\<lparr>saving := True\<rparr>" autosaveOptions T0
          "Response True (Some 7) (T0 + 150)"]
        save_guards [OF snapshot_never_blank, of "talking\<lparr>lastSaveAt := T0 - 4000\<rparr>" autosaveOptions T0
          "Response True (Some 7) (T0 + 150)"]
        save_guards [OF snapshot_never_blank, of "talking\<lparr>saving := True, lastSaveAt := T0 - 4000\<rparr>"
          stopFinalizeOptions T0 "Response True (Some 7) (T0 + 150)"]
        snapshot_never_blank [of "talking\<lparr>saving := True\<rparr>"]
  by (simp add: autosaveOptions_def stopFinalizeOptions_def talking_def boot_def)

text \<open>
  The in-flight skip is not treated as success: on a live call with a save in flight an
  autosave returns ok = false.
\<close>

theorem save_in_flight_counterexample:
  "trim (currentSnapshot (talking\<lparr>saving := True\<rparr>)) \<noteq> []
   \<and> saving (talking\<lparr>saving := True\<rparr>)
   \<and> \<not> o_finalize autosaveOptions
   \<and> \<not> fst (saveConversation autosaveOptions T0 (Response True (Some 7) (T0 + 150))
               (talking\<lparr>saving := True\<rparr>))"
  by (simp add: snapshot_never_blank saveConversation_def Let_def autosaveOptions_def talking_def boot_def)


section \<open>Malformed tool-call arguments\<close>




section \<open>No autosave from transcript activity after a finalize\<close>

text \<open>
  C10. Once \<^verbatim>\<open>finalized\<close> is true, \<^verbatim>\<open>markDirty()\<close> changes nothing, and a text delta of
  the user or of the assistant leaves \<^verbatim>\<open>dirty\<close> and the autosave timer as they were,
  sends no save request and keeps \<^verbatim>\<open>finalized\<close>; with \<^verbatim>\<open>dirty\<close> false, as it is after
  an acknowledged finalize, a later \<^verbatim>\<open>tryAutoSave\<close> does nothing.
\<close>

theorem markDirty_finalized:
  assumes "finalized st"
  shows "markDirty now st = st
       \<and> (isTextDeltaType (etype evt) \<longrightarrow>
            dirty (step jparse now (ChannelMessage evt fr) st) = dirty st
          \<and> autosaveTimer (step jparse now (ChannelMessage evt fr) st) = autosaveTimer st
          \<and> finalized (step jparse now (ChannelMessage evt fr) st)
          \<and> postsOf (emitted (step jparse now (ChannelMessage evt fr) st)) = postsOf (emitted st)
          \<and> (\<not> dirty st \<longrightarrow>
               tryAutoSave why later fr' (step jparse now (ChannelMessage evt fr) st)
                 = step jparse now (ChannelMessage evt fr) st))"
proof -
  have md: "\<And>s. finalized s \<Longrightarrow> markDirty now s = s"
    by (simp add: markDirty_def)
  have mm: "\<And>t s. finalized (maybeMarkConfirmationRequested t now s) = finalized s
        \<and> dirty (maybeMarkConfirmationRequested t now s) = dirty s
        \<and> autosaveTimer (maybeMarkConfirmationRequested t now s) = autosaveTimer s
        \<and> postsOf (emitted (maybeMarkConfirmationRequested t now s)) = postsOf (emitted s)"
    by (simp add: maybeMarkConfirmationRequested_def Let_def)
  have nogreet: "\<not> isTextDeltaType ''response.completed''" "\<not> isTextDeltaType ''response.output_text.done''"
    by (simp_all add: isTextDeltaType_def)
  let ?st' = "step jparse now (ChannelMessage evt fr) st"
  have main: "dirty ?st' = dirty st \<and> autosaveTimer ?st' = autosaveTimer st \<and> finalized ?st'
          \<and> postsOf (emitted ?st') = postsOf (emitted st)" if td: "isTextDeltaType (etype evt)"
  proof -
    from td have ne: "etype evt \<noteq> ''response.completed''" "etype evt \<noteq> ''response.output_text.done''"
      using nogreet by auto
    show ?thesis
      using td ne assms
      by (auto simp: step_def handleRealtimeEvent_def isTextDeltaType_def Let_def md mm
            split: option.splits)
  qed
  have "tryAutoSave why later fr' ?st' = ?st'" if "isTextDeltaType (etype evt)" "\<not> dirty st"
    using main [OF that(1)] that(2) by (simp add: tryAutoSave_def)
  with main md [OF assms] show ?thesis by blast
qed

theorem markDirty_finalized_witness:
  "finalized finalizedCall \<and> \<not> dirty finalizedCall
   \<and> isTextDeltaType (etype (transcriptionDelta ''one more thing''))
   \<and> markDirty (T0 + 500) finalizedCall = finalizedCall
   \<and> \<not> dirty (step jparseExample (T0 + 500)
         (ChannelMessage (transcriptionDelta ''one more thing'') (NetworkError (T0 + 500))) finalizedCall)
   \<and> autosaveTimer (step jparseExample (T0 + 500)
         (ChannelMessage (transcriptionDelta ''one more thing'') (NetworkError (T0 + 500))) finalizedCall)
       = None
   \<and> dirty (markDirty (T0 + 500) talking)
   \<and> autosaveTimer (markDirty (T0 + 500) talking) = Some (T0 + 8500)"
proof -
  have h: "finalized finalizedCall" by (simp add: finalizedCall_def)
  have d: "\<not> dirty finalizedCall" "autosaveTimer finalizedCall = None"
    by (simp_all add: finalizedCall_def talking_def boot_def)
  have t: "isTextDeltaType (etype (transcriptionDelta ''one more thing''))"
    by (simp add: transcriptionDelta_def blankEvent_def isTextDeltaType_def)
  have n: "dirty (markDirty (T0 + 500) talking)"
    "autosaveTimer (markDirty (T0 + 500) talking) = Some (T0 + 8500)"
    by (simp_all add: markDirty_def scheduleAutoSave_def talking_def boot_def AUTO_SAVE_IDLE_MS_def)
  show ?thesis
    using h d t n
      markDirty_finalized [OF h, of "T0 + 500" "transcriptionDelta ''one more thing''" jparseExample
        "NetworkError (T0 + 500)" "''idle''" "T0 + 8500" "NetworkError (T0 + 8500)"]
    by simp
qed


section \<open>Negative replies\<close>















section \<open>A standalone yes after a stop intent\<close>

lemma classify_stop:
  "isStopIntent ''stop''" "\<not> isNegativeTurn ''stop''" "\<not> isAffirmativeTurn ''stop''"
  by code_simp+

lemma classify_ok:
  "\<not> isStopIntent ''ok''" "\<not> isNegativeTurn ''ok''" "isAffirmativeTurn ''ok''"
  by code_simp+

lemma okAfterStop_fields:
  "confirmationGranted okAfterStop = False"
  "finalizeFallbackTimer okAfterStop = None"
  "rejectFinalizeUntilTs okAfterStop = 0"
  "confirmationRequested okAfterStop = False"
  "lastStopIntentTs okAfterStop = T0"
  by (simp_all add: okAfterStop_def run_append userTurn_run userTurn_currentUserTurn
        liveCall_eq boot_def turnClosed_def markDirty_def scheduleAutoSave_def
        evaluate_unclear evaluate_skipped classify_stop classify_ok)

text \<open>
  C4. The user says "stop" and, five seconds later, "ok", with no question asked and no
  lockout. The second turn is not evaluated, because no confirmation is pending and "ok"
  carries no stop intent itself: \<^verbatim>\<open>granted\<close> stays false, no fallback timer is armed,
  and \<^verbatim>\<open>hasFinalizePermission()\<close> is false although the stop intent is 5 s old.
\<close>

theorem ok_after_stop_intent_not_granted:
  "isStopIntent ''stop'' \<and> isAffirmativeTurn ''ok'' \<and> \<not> isNegativeTurn ''ok''
   \<and> okAfterStop = run jparseExample (userTurn T0 ''stop'' @ userTurn (T0 + 5000) ''ok'') liveCall
   \<and> \<not> confirmationRequested okAfterStop
   \<and> (T0 + 5000) - lastStopIntentTs okAfterStop \<le> 20000
   \<and> rejectFinalizeUntilTs okAfterStop \<le> T0 + 5000
   \<and> \<not> confirmationGranted okAfterStop
   \<and> finalizeFallbackTimer okAfterStop = None
   \<and> \<not> hasFinalizePermission (T0 + 5000) okAfterStop"
  by (simp add: okAfterStop_fields classify_stop classify_ok hasFinalizePermission_def T0_def)
     (simp add: okAfterStop_def T0_def)


section \<open>Finalize requests carry the confirmation flag\<close>

lemma allConfirmed_frame [simp]:
  "allConfirmed (setConvoState c st) = allConfirmed st"
  "allConfirmed (sendContinueInstruction st) = allConfirmed st"
  "allConfirmed (snd (sendClosingMessage st)) = allConfirmed st"
  "allConfirmed (forceStopSoon now st) = allConfirmed st"
  "allConfirmed (cancelFinalizeFallback st) = allConfirmed st"
  "allConfirmed (scheduleAutoSave d now st) = allConfirmed st"
  "allConfirmed (markDirty now st) = allConfirmed st"
  "allConfirmed (maybeMarkConfirmationRequested t now st) = allConfirmed st"
  "allConfirmed (maybeEvaluateUserConfirmation t now st) = allConfirmed st"
  by (simp_all add: allConfirmed_def confirmedIfFinal_def setConvoState_def
        sendContinueInstruction_def sendClosingMessage_def forceStopSoon_def
        cancelFinalizeFallback_def scheduleAutoSave_def markDirty_def
        maybeMarkConfirmationRequested_def maybeEvaluateUserConfirmation_def Let_def)

lemma posts_frame [simp]:
  "postsOf (emitted (snd (sendClosingMessage st))) = postsOf (emitted st)"
  "postsOf (emitted (forceStopSoon now st)) = postsOf (emitted st)"
  "postsOf (emitted (cancelFinalizeFallback st)) = postsOf (emitted st)"
  "postsOf (emitted (scheduleAutoSave d now st)) = postsOf (emitted st)"
  "postsOf (emitted (markDirty now st)) = postsOf (emitted st)"
  "postsOf (emitted (maybeMarkConfirmationRequested t now st)) = postsOf (emitted st)"
  "postsOf (emitted (maybeEvaluateUserConfirmation t now st)) = postsOf (emitted st)"
  by (simp_all add: sendClosingMessage_def forceStopSoon_def
        cancelFinalizeFallback_def scheduleAutoSave_def markDirty_def
        maybeMarkConfirmationRequested_def maybeEvaluateUserConfirmation_def Let_def)

lemma allConfirmed_update [simp]:
  "allConfirmed (st\<lparr>userEl := v0\<rparr>) = allConfirmed st"
  "allConfirmed (st\<lparr>aiEl := v1\<rparr>) = allConfirmed st"
  "allConfirmed (st\<lparr>dcOpen := v2\<rparr>) = allConfirmed st"
  "allConfirmed (st\<lparr>sessionId := v3\<rparr>) = allConfirmed st"
  "allConfirmed (st\<lparr>conversationId := v4\<rparr>) = allConfirmed st"
  "allConfirmed (st\<lparr>autosaveTimer := v5\<rparr>) = allConfirmed st"
  "allConfirmed (st\<lparr>dirty := v6\<rparr>) = allConfirmed st"
  "allConfirmed (st\<lparr>lastSnapshot := v7\<rparr>) = allConfirmed st"
  "allConfirmed (st\<lparr>lastSaveAt := v8\<rparr>) = allConfirmed st"
  "allConfirmed (st\<lparr>saving := v9\<rparr>) = allConfirmed st"
  "allConfirmed (st\<lparr>finalized := v10\<rparr>) = allConfirmed st"
  "allConfirmed (st\<lparr>greetingPending := v11\<rparr>) = allConfirmed st"
  "allConfirmed (st\<lparr>greetTimeoutHandle := v12\<rparr>) = allConfirmed st"
  "allConfirmed (st\<lparr>greeted := v13\<rparr>) = allConfirmed st"
  "allConfirmed (st\<lparr>convoState := v14\<rparr>) = allConfirmed st"
  "allConfirmed (st\<lparr>confirmationRequested := v15\<rparr>) = allConfirmed st"
  "allConfirmed (st\<lparr>confirmationAskedAt := v16\<rparr>) = allConfirmed st"
  "allConfirmed (st\<lparr>confirmationGranted := v17\<rparr>) = allConfirmed st"
  "allConfirmed (st\<lparr>currentUserTurn := v18\<rparr>) = allConfirmed st"
  "allConfirmed (st\<lparr>turnIndex := v19\<rparr>) = allConfirmed st"
  "allConfirmed (st\<lparr>confirmAskedTurnIndex := v20\<rparr>) = allConfirmed st"
  "allConfirmed (st\<lparr>lastUserTurnIndex := v21\<rparr>) = allConfirmed st"
  "allConfirmed (st\<lparr>finalizeFallbackTimer := v22\<rparr>) = allConfirmed st"
  "allConfirmed (st\<lparr>rejectFinalizeUntilTs := v23\<rparr>) = allConfirmed st"
  "allConfirmed (st\<lparr>lastStopIntentTs := v24\<rparr>) = allConfirmed st"
  "allConfirmed (st\<lparr>fnArgBuffers := v25\<rparr>) = allConfirmed st"
  "allConfirmed (st\<lparr>forceStopTimers := v26\<rparr>) = allConfirmed st"
  by (simp_all add: allConfirmed_def)

lemma saveConversation_allConfirmed:
  "o_finalize opts \<longrightarrow> o_confirmed opts \<Longrightarrow> allConfirmed st
   \<Longrightarrow> allConfirmed (snd (snd (saveConversation opts now fr st)))"
  by (auto simp: saveConversation_def Let_def allConfirmed_def confirmedIfFinal_def
        split: fetch_result.splits)

lemma stop_skip:
  "allConfirmed (stop True now fr1 fr2 st) = allConfirmed st"
  "postsOf (emitted (stop True now fr1 fr2 st)) = postsOf (emitted st)"
  by (simp_all add: stop_def allConfirmed_def cancelFinalizeFallback_def)

lemma stop_allConfirmed:
  assumes "allConfirmed st"
  shows "allConfirmed (stop skipSave now fr1 fr2 st)"
proof (cases skipSave)
  case True
  then show ?thesis using assms by (simp add: stop_skip)
next
  case False
  let ?p1 = "saveConversation stopBaseOptions now fr1 st"
  let ?p2 = "saveConversation stopFinalizeOptions (fst (snd ?p1)) fr2 (snd (snd ?p1))"
  have a1: "allConfirmed (snd (snd ?p1))"
    using saveConversation_allConfirmed [of stopBaseOptions st now fr1] assms
    by (simp add: stopBaseOptions_def)
  have a2: "allConfirmed (snd (snd ?p2))"
    using saveConversation_allConfirmed [of stopFinalizeOptions "snd (snd ?p1)" "fst (snd ?p1)" fr2] a1
    by (simp add: stopFinalizeOptions_def)
  show ?thesis
    using False a1 a2 by (simp add: stop_unfold Let_def)
qed

lemma sendClosingMessage_cases:
  "sendClosingMessage st = (sent, s2)
   \<Longrightarrow> allConfirmed s2 = allConfirmed st \<and> postsOf (emitted s2) = postsOf (emitted st)"
  by (auto simp: sendClosingMessage_def allConfirmed_def confirmedIfFinal_def split: if_splits)

text \<open>What both finalize paths do once permission is established.\<close>

lemma finalize_tail_allConfirmed:
  assumes "allConfirmed st" and "o_finalize opts \<longrightarrow> o_confirmed opts"
  shows "allConfirmed
           (case saveConversation opts now fr st of
              (ok, t, s1) \<Rightarrow>
                if \<not> ok then sendContinueInstruction (setConvoState Active (s1\<lparr>finalized := False\<rparr>))
                else (case sendClosingMessage (setConvoState Ended s1) of
                        (sent, s2) \<Rightarrow>
                          (let s3 = forceStopSoon t s2
                           in if \<not> sent then stop True t fr fr s3 else s3)))"
proof -
  obtain ok t s1 where p: "saveConversation opts now fr st = (ok, t, s1)"
    by (cases "saveConversation opts now fr st") auto
  have s1: "allConfirmed s1"
    using saveConversation_allConfirmed [OF assms(2,1), of now fr] by (simp add: p)
  obtain sent s2 where q: "sendClosingMessage (setConvoState Ended s1) = (sent, s2)"
    by (cases "sendClosingMessage (setConvoState Ended s1)") auto
  have "allConfirmed s2"
    using sendClosingMessage_cases [OF q] s1 by simp
  then show ?thesis
    using s1 by (simp add: p q Let_def stop_skip)
qed

lemma finalizeClientSide_allConfirmed:
  assumes "allConfirmed st"
  shows "allConfirmed (finalizeClientSide why now fr st)"
proof (cases "hasFinalizePermission now st")
  case False
  then show ?thesis using assms by (simp add: finalizeClientSide_def)
next
  case True
  have "allConfirmed (st\<lparr>finalized := True\<rparr>)" using assms by simp
  from finalize_tail_allConfirmed [OF this, where now = now and fr = fr]
  show ?thesis using True by (simp add: finalizeClientSide_def)
qed

lemma handleFunctionCallEvent_allConfirmed:
  assumes "allConfirmed st"
  shows "allConfirmed (handleFunctionCallEvent jparse evt now fr st)"
proof -
  let ?s0 = "st\<lparr>fnArgBuffers := (fnArgBuffers st)(callId evt := None)\<rparr>"
  have "allConfirmed ((cancelFinalizeFallback ?s0)\<lparr>finalized := True\<rparr>)" using assms by simp
  from finalize_tail_allConfirmed [OF this, where now = now and fr = fr]
  show ?thesis using assms by (simp add: handleFunctionCallEvent_def Let_def)
qed

lemma tryAutoSave_allConfirmed:
  "allConfirmed st \<Longrightarrow> allConfirmed (tryAutoSave why now fr st)"
  by (simp add: tryAutoSave_def saveConversation_allConfirmed)

lemma handleRealtimeEvent_allConfirmed:
  assumes "allConfirmed st"
  shows "allConfirmed (handleRealtimeEvent jparse evt now fr st)"
  using assms
  by (simp add: handleRealtimeEvent_def Let_def handleFunctionCallEvent_allConfirmed stop_skip
        split: option.splits)

lemma start_allConfirmed:
  assumes "allConfirmed st"
  shows "allConfirmed (start outcome now fr1 fr2 st)"
proof -
  let ?s1 = "setConvoState Active
            (st\<lparr>userEl := [], aiEl := [], autosaveTimer := None, dirty := False,
                lastSnapshot := [], lastSaveAt := 0, finalized := False, conversationId := None,
                greetingPending := False, greetTimeoutHandle := None, greeted := False\<rparr>)"
  have s1: "allConfirmed ?s1" using assms by simp
  have "allConfirmed (stop False now fr1 fr2 (?s1\<lparr>sessionId := sid\<rparr>))" for sid
    using s1 by (intro stop_allConfirmed) simp
  then show ?thesis
    using s1 by (simp add: start_def Let_def split: start_outcome.splits option.splits)
qed

lemma step_allConfirmed:
  assumes "allConfirmed st"
  shows "allConfirmed (step jparse now inp st)"
proof (cases inp)
  case (StartClick outcome fr1 fr2)
  then show ?thesis using assms by (simp add: step_def start_allConfirmed)
next
  case (StopClick fr1 fr2)
  then show ?thesis using assms by (simp add: step_def stop_allConfirmed)
next
  case ChannelOpen
  then show ?thesis using assms by (simp add: step_def Let_def allConfirmed_def confirmedIfFinal_def)
next
  case (ChannelMessage evt fr)
  then show ?thesis using assms by (simp add: step_def handleRealtimeEvent_allConfirmed)
next
  case (ChannelClosed fr)
  then show ?thesis using assms by (simp add: step_def tryAutoSave_allConfirmed)
next
  case (ConnectionState cs fr)
  then show ?thesis using assms by (simp add: step_def tryAutoSave_allConfirmed)
next
  case (AutosaveTimerFires fr)
  then show ?thesis using assms
    by (simp add: step_def tryAutoSave_allConfirmed split: option.splits)
next
  case (FallbackTimerFires fr)
  then show ?thesis using assms
    by (simp add: step_def finalizeClientSide_allConfirmed split: option.splits)
next
  case ForceStopTimerFires
  then show ?thesis using assms
    by (simp add: step_def stop_skip split: list.splits)
next
  case BeforeUnload
  then show ?thesis using assms
    by (simp add: step_def beforeunload_def allConfirmed_def confirmedIfFinal_def)
qed

lemma run_allConfirmed:
  "allConfirmed st \<Longrightarrow> allConfirmed (run jparse inps st)"
  by (induction inps arbitrary: st) (auto simp: step_allConfirmed)

lemma hasFinalizePermission_update [simp]:
  "hasFinalizePermission now (st\<lparr>fnArgBuffers := m\<rparr>) = hasFinalizePermission now st"
  "hasFinalizePermission now (st\<lparr>finalizeFallbackTimer := a\<rparr>) = hasFinalizePermission now st"
  by (simp_all add: hasFinalizePermission_def)

lemma finalizeClientSide_posts:
  "\<not> hasFinalizePermission now st
   \<Longrightarrow> postsOf (emitted (finalizeClientSide why now fr st)) = postsOf (emitted st)"
  by (simp add: finalizeClientSide_def)

lemma handleFunctionCallEvent_posts:
  "\<not> hasFinalizePermission now st
   \<Longrightarrow> postsOf (emitted (handleFunctionCallEvent jparse evt now fr st)) = postsOf (emitted st)"
  by (simp add: handleFunctionCallEvent_def Let_def)

lemma handleRealtimeEvent_posts:
  "\<not> hasFinalizePermission now st
   \<Longrightarrow> postsOf (emitted (handleRealtimeEvent jparse evt now fr st)) = postsOf (emitted st)"
  by (simp add: handleRealtimeEvent_def Let_def handleFunctionCallEvent_posts stop_skip
        split: option.splits)

lemma permission_granted: "hasFinalizePermission now st \<Longrightarrow> confirmationGranted st"
  by (auto simp: hasFinalizePermission_def)

lemma helloCall_eq:
  "helloCall = liveCall\<lparr>userEl := ''hello'' @ [CHR 10], dirty := True, turnIndex := 1,
                        lastUserTurnIndex := 1, autosaveTimer := Some (T0 + 3000)\<rparr>"
proof -
  have c: "\<not> isStopIntent ''hello''" by code_simp
  show ?thesis
    by (simp add: helloCall_def userTurn_run liveCall_eq boot_def turnClosed_def markDirty_def
          scheduleAutoSave_def evaluate_skipped c)
qed

text \<open>
  C1, as amended. Every request the controller sends with \<^verbatim>\<open>finalize\<close> set also has
  \<^verbatim>\<open>confirmed\<close> set: each input keeps this true of everything emitted, so it holds
  after every run from \<^verbatim>\<open>boot\<close>, through the tool call, the fallback timer and
  \<^verbatim>\<open>stop()\<close>. A channel message or the fallback timer sends a save request only when
  \<^verbatim>\<open>hasFinalizePermission()\<close> holds, hence only after an affirmative reply has set
  \<^verbatim>\<open>granted\<close>. The forced finalize of \<^verbatim>\<open>stop()\<close> is not tied to the confirmation
  state.
\<close>

theorem finalize_requests_confirmed:
  "(allConfirmed st \<longrightarrow> allConfirmed (step jparse now inp st))
   \<and> allConfirmed (run jparse inps boot)
   \<and> ((inp = ChannelMessage evt fr \<or> inp = FallbackTimerFires fr)
        \<and> postsOf (emitted (step jparse now inp st)) \<noteq> postsOf (emitted st)
      \<longrightarrow> hasFinalizePermission now st \<and> confirmationGranted st)"
proof (intro conjI impI)
  assume "allConfirmed st"
  then show "allConfirmed (step jparse now inp st)" by (rule step_allConfirmed)
next
  have "allConfirmed boot" by (simp add: allConfirmed_def boot_def)
  then show "allConfirmed (run jparse inps boot)" by (rule run_allConfirmed)
next
  assume a: "(inp = ChannelMessage evt fr \<or> inp = FallbackTimerFires fr)
        \<and> postsOf (emitted (step jparse now inp st)) \<noteq> postsOf (emitted st)"
  have "postsOf (emitted (step jparse now inp st)) = postsOf (emitted st)"
    if "\<not> hasFinalizePermission now st"
  proof -
    have "postsOf (emitted (step jparse now (ChannelMessage evt fr) st)) = postsOf (emitted st)"
      using that by (simp add: step_def handleRealtimeEvent_posts)
    moreover have "postsOf (emitted (step jparse now (FallbackTimerFires fr) st)) = postsOf (emitted st)"
      using that by (simp add: step_def finalizeClientSide_posts split: option.splits)
    ultimately show ?thesis using a by auto
  qed
  with a show p: "hasFinalizePermission now st" by blast
  then show "confirmationGranted st" by (rule permission_granted)
qed

theorem finalize_requests_confirmed_witness:
  "allConfirmed confirmedCall
   \<and> postsOf (emitted (step jparseExample (T0 + 10000)
          (ChannelMessage finalizeDone (Response True (Some 7) (T0 + 10200))) confirmedCall))
       \<noteq> postsOf (emitted confirmedCall)
   \<and> hasFinalizePermission (T0 + 10000) confirmedCall \<and> confirmationGranted confirmedCall
   \<and> allConfirmed (step jparseExample (T0 + 10000)
          (ChannelMessage finalizeDone (Response True (Some 7) (T0 + 10200))) confirmedCall)
   \<and> map (\<lambda>r. (finalize r, confirmed r)) (postsOf (emitted (step jparseExample (T0 + 10000)
          (ChannelMessage finalizeDone (Response True (Some 7) (T0 + 10200))) confirmedCall)))
       = [(True, True)]"
proof -
  have h1: "allConfirmed confirmedCall"
    by (simp add: allConfirmed_def confirmedCall_def askedAndGranted_def boot_def)
  have h2: "map (\<lambda>r. (finalize r, confirmed r)) (postsOf (emitted (step jparseExample (T0 + 10000)
          (ChannelMessage finalizeDone (Response True (Some 7) (T0 + 10200))) confirmedCall)))
       = [(True, True)]"
    by code_simp
  have h3: "postsOf (emitted confirmedCall) = []"
    by (simp add: confirmedCall_def askedAndGranted_def boot_def)
  from h2 h3 have h4: "postsOf (emitted (step jparseExample (T0 + 10000)
          (ChannelMessage finalizeDone (Response True (Some 7) (T0 + 10200))) confirmedCall))
       \<noteq> postsOf (emitted confirmedCall)"
    by auto
  show ?thesis
    using h1 h2 h4
      finalize_requests_confirmed [of confirmedCall jparseExample "T0 + 10000"
        "ChannelMessage finalizeDone (Response True (Some 7) (T0 + 10200))" "[]"
        finalizeDone "Response True (Some 7) (T0 + 10200)"]
    by simp
qed

text \<open>
  \<^verbatim>\<open>stop()\<close> finalizes without any confirmation: the user said "hello" and pressed Stop;
  nothing was asked or granted, and the second request carries \<^verbatim>\<open>finalize\<close> and
  \<^verbatim>\<open>confirmed\<close>.
\<close>

theorem stop_finalizes_unconfirmed_counterexample:
  "helloCall = run jparseExample (userTurn T0 ''hello'') liveCall
   \<and> stoppedCall = step jparseExample (T0 + 20000)
       (StopClick (Response True (Some 7) (T0 + 20150)) (Response True (Some 7) (T0 + 20300))) helloCall
   \<and> \<not> isAffirmativeTurn ''hello''
   \<and> \<not> confirmationRequested helloCall \<and> \<not> confirmationGranted helloCall
   \<and> \<not> hasFinalizePermission (T0 + 20000) helloCall
   \<and> map (\<lambda>r. (reason r, finalize r, confirmed r)) (postsOf (emitted stoppedCall))
       = [(''manual_stop'', False, False), (''manual_stop_finalize'', True, True)]
   \<and> finalized stoppedCall \<and> convoState stoppedCall = Ended"
proof -
  have c: "\<not> isAffirmativeTurn ''hello''" by code_simp
  have "map (\<lambda>r. (reason r, finalize r, confirmed r)) (postsOf (emitted stoppedCall))
       = [(''manual_stop'', False, False), (''manual_stop_finalize'', True, True)]
     \<and> finalized stoppedCall \<and> convoState stoppedCall = Ended"
    by (simp add: stoppedCall_def step_def helloCall_eq liveCall_eq boot_def stop_unfold Let_def
          saveConversation_def snapshot_never_blank stopBaseOptions_def stopFinalizeOptions_def
          MIN_SAVE_INTERVAL_MS_def T0_def orElse_def setConvoState_def cancelFinalizeFallback_def)
  moreover have "\<not> confirmationRequested helloCall \<and> \<not> confirmationGranted helloCall
      \<and> \<not> hasFinalizePermission (T0 + 20000) helloCall"
    by (simp add: helloCall_eq liveCall_eq boot_def hasFinalizePermission_def T0_def)
  ultimately show ?thesis
    using c by (simp add: helloCall_def stoppedCall_def)
qed


section \<open>The affirmative classifier\<close>

lemma of_char_lt: "(of_char (c::char) :: nat) < 256"
  by (metis of_char_mod_256 mod_less_divisor zero_less_numeral)

lemma toLowerChar_code:
  "(of_char (toLowerChar c) :: nat) =
     (let n = (of_char c :: nat) in
      if (65 \<le> n \<and> n \<le> 90) \<or> (192 \<le> n \<and> n \<le> 222 \<and> n \<noteq> 215) then n + 32 else n)"
  by (auto simp: toLowerChar_def Let_def)

lemma isSpace_toLowerChar [simp]: "isSpace (toLowerChar c) = isSpace c"
  by (auto simp: isSpace_def toLowerChar_code Let_def)

lemma isLetter_toLowerChar [simp]: "isLetter (toLowerChar c) = isLetter c"
  by (auto simp: isLetter_def toLowerChar_code Let_def)

lemma toLowerChar_idem [simp]: "toLowerChar (toLowerChar c) = toLowerChar c"
proof -
  have "(of_char (toLowerChar (toLowerChar c)) :: nat) = of_char (toLowerChar c)"
    by (auto simp: toLowerChar_code [of "toLowerChar c"] toLowerChar_code [of c] Let_def)
  then show ?thesis by (metis char_of_char)
qed



lemma toLowerCase_idem [simp]: "toLowerCase (toLowerCase s) = toLowerCase s"
  by (simp add: toLowerCase_def)





























end
